theory Spec2Isabelle
  imports Main
begin

section \<open>Python strings and POSIX paths\<close>

text \<open>
  Strings are lists of 8-bit characters (code points below 256). The operations below are
  the ones \<^verbatim>\<open>compiler.py\<close> calls on \<^verbatim>\<open>str\<close> and \<^verbatim>\<open>os.path\<close>; the path functions follow
  \<^verbatim>\<open>posixpath\<close>.
\<close>

type_synonym path = string

definition py_isspace :: "char \<Rightarrow> bool" where
  "py_isspace c = (c \<in> set [CHR 0x09, CHR 0x0A, CHR 0x0B, CHR 0x0C, CHR 0x0D,
     CHR 0x1C, CHR 0x1D, CHR 0x1E, CHR 0x1F, CHR 0x20, CHR 0x85, CHR 0xA0])"

definition py_strip :: "string \<Rightarrow> string" where
  "py_strip s = rev (dropWhile py_isspace (rev (dropWhile py_isspace s)))"

definition upper_chars :: "char list" where
  "upper_chars = ''ABCDEFGHIJKLMNOPQRSTUVWXYZ'' @
     [CHR 0xC0, CHR 0xC1, CHR 0xC2, CHR 0xC3, CHR 0xC4, CHR 0xC5, CHR 0xC6, CHR 0xC7,
      CHR 0xC8, CHR 0xC9, CHR 0xCA, CHR 0xCB, CHR 0xCC, CHR 0xCD, CHR 0xCE, CHR 0xCF,
      CHR 0xD0, CHR 0xD1, CHR 0xD2, CHR 0xD3, CHR 0xD4, CHR 0xD5, CHR 0xD6,
      CHR 0xD8, CHR 0xD9, CHR 0xDA, CHR 0xDB, CHR 0xDC, CHR 0xDD, CHR 0xDE]"

definition lower_chars :: "char list" where
  "lower_chars = ''abcdefghijklmnopqrstuvwxyz'' @
     [CHR 0xE0, CHR 0xE1, CHR 0xE2, CHR 0xE3, CHR 0xE4, CHR 0xE5, CHR 0xE6, CHR 0xE7,
      CHR 0xE8, CHR 0xE9, CHR 0xEA, CHR 0xEB, CHR 0xEC, CHR 0xED, CHR 0xEE, CHR 0xEF,
      CHR 0xF0, CHR 0xF1, CHR 0xF2, CHR 0xF3, CHR 0xF4, CHR 0xF5, CHR 0xF6,
      CHR 0xF8, CHR 0xF9, CHR 0xFA, CHR 0xFB, CHR 0xFC, CHR 0xFD, CHR 0xFE]"

definition py_lower_char :: "char \<Rightarrow> char" where
  "py_lower_char c = (case map_of (zip upper_chars lower_chars) c of None \<Rightarrow> c | Some l \<Rightarrow> l)"

definition py_lower :: "string \<Rightarrow> string" where
  "py_lower s = map py_lower_char s"

definition py_replace_char :: "char \<Rightarrow> char \<Rightarrow> string \<Rightarrow> string" where
  "py_replace_char a b s = map (\<lambda>c. if c = a then b else c) s"

definition py_startswith :: "string \<Rightarrow> string \<Rightarrow> bool" where
  "py_startswith s p = (take (length p) s = p)"

definition py_endswith :: "string \<Rightarrow> string \<Rightarrow> bool" where
  "py_endswith s p = (length p \<le> length s \<and> drop (length s - length p) s = p)"

text \<open>
  \<^verbatim>\<open>s.split(sep)\<close> for a non-empty separator: scan from the left, cut at each occurrence and
  resume after it. \<open>cur\<close> is the field being collected.
\<close>

function py_split_from :: "string \<Rightarrow> string \<Rightarrow> string \<Rightarrow> string list" where
  "py_split_from sep cur [] = [cur]"
| "py_split_from sep cur (c # cs) =
     (if sep \<noteq> [] \<and> py_startswith (c # cs) sep
      then cur # py_split_from sep [] (drop (length sep) (c # cs))
      else py_split_from sep (cur @ [c]) cs)"
  by pat_completeness auto
termination
  by (relation "measure (\<lambda>(sep, cur, s). length s)") auto

definition py_split :: "string \<Rightarrow> string \<Rightarrow> string list" where
  "py_split sep s = py_split_from sep [] s"

definition py_rfind :: "char \<Rightarrow> string \<Rightarrow> int" where
  "py_rfind c s =
     (if c \<in> set s then int (length s) - 1 - int (length (takeWhile (\<lambda>x. x \<noteq> c) (rev s)))
      else - 1)"

definition dirname :: "path \<Rightarrow> path" where
  "dirname p =
     (let i = nat (py_rfind CHR ''/'' p + 1); head = take i p
      in if head \<noteq> [] \<and> head \<noteq> replicate (length head) CHR ''/''
         then rev (dropWhile (\<lambda>c. c = CHR ''/'') (rev head)) else head)"

definition basename :: "path \<Rightarrow> string" where
  "basename p = drop (nat (py_rfind CHR ''/'' p + 1)) p"

definition path_join :: "path \<Rightarrow> string \<Rightarrow> path" where
  "path_join a b =
     (if py_startswith b ''/'' then b
      else if a = [] \<or> py_endswith a ''/'' then a @ b
      else a @ ''/'' @ b)"

definition splitext :: "path \<Rightarrow> path \<times> string" where
  "splitext p =
     (let sepIndex = py_rfind CHR ''/'' p; dotIndex = py_rfind CHR ''.'' p
      in if dotIndex > sepIndex \<and>
            list_ex (\<lambda>c. c \<noteq> CHR ''.'')
              (take (nat (dotIndex - (sepIndex + 1))) (drop (nat (sepIndex + 1)) p))
         then (take (nat dotIndex) p, drop (nat dotIndex) p) else (p, []))"

text \<open>
  A Python \<^verbatim>\<open>set\<close> of strings is a duplicate-free list; its iteration order is not fixed by
  the language, so the theorems below speak about \<open>set\<close> and \<open>distinct\<close> of such lists only.
\<close>

definition py_set :: "string list \<Rightarrow> string list" where
  "py_set xs = remdups xs"

definition set_update :: "string list \<Rightarrow> string list \<Rightarrow> string list" where
  "set_update s xs = s @ remdups (filter (\<lambda>x. x \<notin> set s) xs)"

section \<open>The environment of a run\<close>

datatype exn =
    CalledProcessError nat string
  | FileNotFoundError string
  | ImportError string
  | OtherException string

text \<open>Syntax tree of a parsed source file, as far as \<^verbatim>\<open>extract_imports\<close> looks at it.\<close>

datatype ast =
    Import "string list"
  | ImportFrom "string option"
  | Other "ast list"

datatype proc_outcome = Exited nat string | SpawnFailed exn

datatype input_event = Line string | EndOfInput | Interrupt

datatype msg =
    Installing string | InstalledOk string | InstallFailed string exn | InstallError string exn
  | FoundPackages nat | NoRequirementsFound | ReadError exn
  | Rule | CompilerDepsRequired | RequiredForCompilation "string list" | WillAutoInstall
  | CompilerSetupFailed | PipInstallHint
  | NoRequirementsSkipping | OnlyPyInstaller | AllDepsPresent | ProjectDepsRequired
  | PackagesNeeded "string list" | DepsNotInstalled | AllDepsInstalled
  | OnlyPartial nat nat | CompilationMayFail
  | ParseWarning path exn
  | Analyzing | Compiling path | DetectedLocal "string list" | DetectedExternal "string list"
  | Command "string list" | CompilationCompleted | CompilationError exn | ErrorOutput string
  | PyInstallerNotFound | UnexpectedError exn | CleanupWarning exn

text \<open>
  What the program does to the outside, in order: a printed message, an import probe, a
  \<^verbatim>\<open>pip install\<close>, a console prompt, the packaging command, a file or a directory removal.
\<close>

datatype event =
    Print msg
  | ImportProbe string
  | PipInstall string
  | Prompt
  | RunPackager "string list"
  | Remove path
  | Rmtree path

text \<open>
  The outside world answers the program. The files the program only reads (sources, the
  manifest, directory listings) are fixed for the run; the answers its own actions can change
  (importability, existence of paths, console input, subprocess results) depend on the events
  so far. Asynchronous interrupts are modelled at the console prompt only. In the next three
  sections the standard output prints every message, so that a \<^verbatim>\<open>print\<close> is an event and
  nothing else; the section after them has the same functions on a standard output that may
  refuse a message, where a \<^verbatim>\<open>print\<close> can raise.
\<close>

record env =
  argv :: "string list"
  input_reply :: "event list \<Rightarrow> input_event"
  import_module :: "event list \<Rightarrow> string \<Rightarrow> exn option"
  pip_install :: "event list \<Rightarrow> string \<Rightarrow> proc_outcome"
  run_packager :: "event list \<Rightarrow> string list \<Rightarrow> proc_outcome"
  path_exists :: "event list \<Rightarrow> path \<Rightarrow> bool"
  os_remove :: "event list \<Rightarrow> path \<Rightarrow> exn option"
  rmtree :: "event list \<Rightarrow> path \<Rightarrow> exn option"
  open_lines :: "path \<Rightarrow> string list \<times> exn option"
  parse_source :: "path \<Rightarrow> exn + ast"
  listdir :: "path \<Rightarrow> exn + string list"

text \<open>\<^verbatim>\<open>subprocess.check_call\<close> and \<^verbatim>\<open>subprocess.run(check=True)\<close>: what is raised, if anything.\<close>

definition check_call :: "proc_outcome \<Rightarrow> exn option" where
  "check_call r =
     (case r of
        Exited code err \<Rightarrow> if code = 0 then None else Some (CalledProcessError code err)
      | SpawnFailed e \<Rightarrow> Some e)"

section \<open>DependencyManager\<close>

definition REQUIRED_PACKAGES :: "string list" where
  "REQUIRED_PACKAGES = [''pyinstaller'']"

definition check_package_installed ::
  "env \<Rightarrow> string \<Rightarrow> event list \<Rightarrow> (exn + bool) \<times> event list" where
  "check_package_installed env package_name h =
     (let import_name = py_replace_char CHR ''-'' CHR ''_'' (py_lower package_name);
          h1 = h @ [ImportProbe import_name]
      in case import_module env h import_name of
           None \<Rightarrow> (Inr True, h1)
         | Some e \<Rightarrow> (case e of ImportError m \<Rightarrow> (Inr False, h1) | _ \<Rightarrow> (Inl e, h1)))"

definition install_package :: "env \<Rightarrow> string \<Rightarrow> event list \<Rightarrow> bool \<times> event list" where
  "install_package env package_name h =
     (let h1 = h @ [Print (Installing package_name)];
          h2 = h1 @ [PipInstall package_name]
      in case check_call (pip_install env h1 package_name) of
           None \<Rightarrow> (True, h2 @ [Print (InstalledOk package_name)])
         | Some e \<Rightarrow>
             (case e of
                CalledProcessError c err \<Rightarrow> (False, h2 @ [Print (InstallFailed package_name e)])
              | _ \<Rightarrow> (False, h2 @ [Print (InstallError package_name e)])))"

text \<open>The loop over the lines of the manifest; \<open>packages\<close> is the list being appended to.\<close>

fun read_requirements :: "string list \<Rightarrow> string list \<Rightarrow> string list" where
  "read_requirements [] packages = packages"
| "read_requirements (l # rest) packages =
     (let line = py_strip l
      in if line = [] \<or> py_startswith line ''#'' \<or> py_startswith line ''-''
         then read_requirements rest packages
         else let package_name =
                    py_strip (hd (py_split ''<='' (hd (py_split ''=='' (hd (py_split ''>='' line))))))
              in if package_name \<noteq> [] then read_requirements rest (packages @ [package_name])
                 else read_requirements rest packages)"

text \<open>
  The \<^verbatim>\<open>try\<close> block of \<^verbatim>\<open>parse_requirements_file\<close>: the packages collected, the exception that
  ended the block (if any), and the events. A read that fails after some lines has appended
  the packages of those lines already.
\<close>

definition parse_requirements_try ::
  "env \<Rightarrow> path \<Rightarrow> event list \<Rightarrow> string list \<times> exn option \<times> event list" where
  "parse_requirements_try env requirements_path h =
     (if path_exists env h requirements_path then
        (case open_lines env requirements_path of
           (lines, err) \<Rightarrow>
             let packages = read_requirements lines []
             in case err of
                  Some e \<Rightarrow> (packages, Some e, h)
                | None \<Rightarrow> (packages, None, h @ [Print (FoundPackages (length packages))]))
      else ([], None, h @ [Print NoRequirementsFound]))"

definition parse_requirements_file ::
  "env \<Rightarrow> path \<Rightarrow> event list \<Rightarrow> (exn + string list) \<times> event list" where
  "parse_requirements_file env requirements_path h =
     (case parse_requirements_try env requirements_path h of
        (packages, None, h1) \<Rightarrow> (Inr packages, h1)
      | (packages, Some e, h1) \<Rightarrow> (Inr packages, h1 @ [Print (ReadError e)]))"

definition find_requirements_file :: "env \<Rightarrow> path \<Rightarrow> event list \<Rightarrow> path option" where
  "find_requirements_file env script_path h =
     (let script_dir = dirname script_path;
          requirements_path = path_join script_dir ''requirements.txt''
      in if path_exists env h requirements_path then Some requirements_path else None)"

text \<open>The loop that collects the packages whose import probe fails.\<close>

fun collect_missing ::
  "env \<Rightarrow> string list \<Rightarrow> string list \<Rightarrow> event list \<Rightarrow> (exn + string list) \<times> event list" where
  "collect_missing env [] missing_packages h = (Inr missing_packages, h)"
| "collect_missing env (package # rest) missing_packages h =
     (case check_package_installed env package h of
        (Inl e, h1) \<Rightarrow> (Inl e, h1)
      | (Inr installed, h1) \<Rightarrow>
          collect_missing env rest
            (if installed then missing_packages else missing_packages @ [package]) h1)"

text \<open>The install loop of \<^verbatim>\<open>ensure_compiler_dependencies\<close>: it returns at the first failure.\<close>

fun install_required :: "env \<Rightarrow> string list \<Rightarrow> event list \<Rightarrow> bool \<times> event list" where
  "install_required env [] h = (True, h)"
| "install_required env (package # rest) h =
     (case install_package env package h of
        (ok, h1) \<Rightarrow>
          if ok then install_required env rest h1
          else (False, h1 @ [Print CompilerSetupFailed, Print PipInstallHint]))"

definition ensure_compiler_dependencies ::
  "env \<Rightarrow> event list \<Rightarrow> (exn + bool) \<times> event list" where
  "ensure_compiler_dependencies env h =
     (case collect_missing env REQUIRED_PACKAGES [] h of
        (Inl e, h1) \<Rightarrow> (Inl e, h1)
      | (Inr missing_packages, h1) \<Rightarrow>
          if missing_packages = [] then (Inr True, h1)
          else (case install_required env missing_packages
                       (h1 @ [Print Rule, Print CompilerDepsRequired, Print Rule,
                              Print (RequiredForCompilation missing_packages),
                              Print WillAutoInstall]) of
                  (ok, h2) \<Rightarrow> (Inr ok, h2)))"

text \<open>The install loop of \<^verbatim>\<open>ensure_project_dependencies\<close>: every package is tried.\<close>

fun install_each :: "env \<Rightarrow> string list \<Rightarrow> nat \<Rightarrow> event list \<Rightarrow> nat \<times> event list" where
  "install_each env [] success_count h = (success_count, h)"
| "install_each env (package # rest) success_count h =
     (case install_package env package h of
        (ok, h1) \<Rightarrow> install_each env rest (if ok then success_count + 1 else success_count) h1)"

text \<open>
  The confirmation of \<^verbatim>\<open>ensure_project_dependencies\<close>: \<open>True\<close> when the installation goes
  ahead.
\<close>

definition ask_consent :: "env \<Rightarrow> event list \<Rightarrow> bool \<times> event list" where
  "ask_consent env h =
     (if length (argv env) = 1 then
        (case input_reply env h of
           Line s \<Rightarrow>
             let response = py_lower (py_strip s)
             in if response \<notin> set [''y'', ''yes'', '''']
                then (False, h @ [Prompt, Print DepsNotInstalled])
                else (True, h @ [Prompt])
         | EndOfInput \<Rightarrow> (False, h @ [Prompt])
         | Interrupt \<Rightarrow> (False, h @ [Prompt]))
      else (True, h))"

definition install_missing ::
  "env \<Rightarrow> string list \<Rightarrow> event list \<Rightarrow> (exn + bool) \<times> event list" where
  "install_missing env missing_packages h =
     (case ask_consent env
             (h @ [Print Rule, Print ProjectDepsRequired, Print Rule,
                   Print (PackagesNeeded missing_packages), Print WillAutoInstall]) of
        (go, h1) \<Rightarrow>
          if \<not> go then (Inr False, h1)
          else (case install_each env missing_packages 0 h1 of
                  (success_count, h2) \<Rightarrow>
                    if success_count = length missing_packages
                    then (Inr True, h2 @ [Print AllDepsInstalled])
                    else (Inr True,
                          h2 @ [Print (OnlyPartial success_count (length missing_packages)),
                                Print CompilationMayFail])))"

text \<open>
  Lines 162 to 208 of \<^verbatim>\<open>ensure_project_dependencies\<close>: the manifest is located and parsed
  again, and the packages to probe are taken from this second parse.
\<close>

definition check_and_install ::
  "env \<Rightarrow> path \<Rightarrow> event list \<Rightarrow> (exn + bool) \<times> event list" where
  "check_and_install env script_path h =
     (case find_requirements_file env script_path h of
        None \<Rightarrow> (Inr True, h @ [Print NoRequirementsSkipping])
      | Some requirements_path \<Rightarrow>
          (case parse_requirements_file env requirements_path h of
             (Inl e, h1) \<Rightarrow> (Inl e, h1)
           | (Inr required_packages, h1) \<Rightarrow>
               if required_packages = [] then (Inr True, h1)
               else (case collect_missing env required_packages [] h1 of
                       (Inl e, h2) \<Rightarrow> (Inl e, h2)
                     | (Inr missing_packages, h2) \<Rightarrow>
                         if missing_packages = [] then (Inr True, h2 @ [Print AllDepsPresent])
                         else install_missing env missing_packages h2)))"

definition ensure_project_dependencies ::
  "env \<Rightarrow> path \<Rightarrow> event list \<Rightarrow> (exn + bool) \<times> event list" where
  "ensure_project_dependencies env script_path h =
     (case find_requirements_file env script_path h of
        None \<Rightarrow> (Inr True, h @ [Print NoRequirementsSkipping])
      | Some requirements_path \<Rightarrow>
          (case parse_requirements_file env requirements_path h of
             (Inl e, h1) \<Rightarrow> (Inl e, h1)
           | (Inr required_packages, h1) \<Rightarrow>
               if required_packages = [] then (Inr True, h1)
               else let required_packages' =
                          filter (\<lambda>pkg. py_lower pkg \<noteq> ''pyinstaller'') required_packages
                    in if required_packages' = [] then (Inr True, h1 @ [Print OnlyPyInstaller])
                       else check_and_install env script_path h1))"

section \<open>ImportAnalyzer\<close>

fun children :: "ast \<Rightarrow> ast list" where
  "children (Other cs) = cs"
| "children _ = []"

fun nodes :: "ast \<Rightarrow> nat" where
  "nodes (Other cs) = Suc (sum_list (map nodes cs))"
| "nodes _ = 1"

text \<open>\<^verbatim>\<open>ast.walk\<close>: breadth first, from a queue of nodes still to visit.\<close>

function walk :: "ast list \<Rightarrow> ast list" where
  "walk [] = []"
| "walk (n # todo) = n # walk (todo @ children n)"
  by pat_completeness auto
termination
proof (relation "measure (\<lambda>todo. sum_list (map nodes todo))")
  show "wf (measure (\<lambda>todo. sum_list (map nodes todo)))" by simp
next
  fix n :: ast and todo :: "ast list"
  show "(todo @ children n, n # todo) \<in> measure (\<lambda>todo. sum_list (map nodes todo))"
    by (cases n) simp_all
qed

text \<open>The loop over the visited nodes; \<open>imports\<close> is the list being appended to.\<close>

fun collect_imports :: "ast list \<Rightarrow> string list \<Rightarrow> string list" where
  "collect_imports [] imports = imports"
| "collect_imports (Import names # rest) imports = collect_imports rest (imports @ names)"
| "collect_imports (ImportFrom m # rest) imports =
     (case m of
        None \<Rightarrow> collect_imports rest imports
      | Some name \<Rightarrow>
          if name \<noteq> [] then collect_imports rest (imports @ [name])
          else collect_imports rest imports)"
| "collect_imports (Other cs # rest) imports = collect_imports rest imports"

definition extract_imports_try :: "env \<Rightarrow> path \<Rightarrow> exn + string list" where
  "extract_imports_try env file_path =
     (case parse_source env file_path of
        Inl e \<Rightarrow> Inl e
      | Inr tree \<Rightarrow> Inr (py_set (collect_imports (walk [tree]) [])))"

definition extract_imports ::
  "env \<Rightarrow> path \<Rightarrow> event list \<Rightarrow> (exn + string list) \<times> event list" where
  "extract_imports env file_path h =
     (case extract_imports_try env file_path of
        Inr imports \<Rightarrow> (Inr imports, h)
      | Inl e \<Rightarrow> (Inr [], h @ [Print (ParseWarning file_path e)]))"

definition find_local_modules :: "env \<Rightarrow> path \<Rightarrow> exn + path list" where
  "find_local_modules env main_script_path =
     (let script_dir = dirname main_script_path
      in case listdir env script_dir of
           Inl e \<Rightarrow> Inl e
         | Inr files \<Rightarrow>
             Inr (map (path_join script_dir)
                    (filter (\<lambda>file. py_endswith file ''.py'' \<and>
                                    file \<noteq> basename main_script_path \<and>
                                    \<not> py_startswith file ''compiler'') files)))"

record analysis =
  main_imports :: "string list"
  local_modules :: "path list"
  all_imports :: "string list"
  external_imports :: "string list"
  local_module_names :: "string list"

definition stdlib_modules :: "string list" where
  "stdlib_modules = [''os'', ''sys'', ''math'', ''json'', ''datetime'', ''time'', ''re'',
     ''random'', ''pathlib'', ''collections'', ''itertools'', ''functools'']"

text \<open>The loop over the local modules; \<open>all_imports\<close> is the set being updated.\<close>

fun gather_imports ::
  "env \<Rightarrow> path list \<Rightarrow> string list \<Rightarrow> event list \<Rightarrow> (exn + string list) \<times> event list" where
  "gather_imports env [] all_imps h = (Inr all_imps, h)"
| "gather_imports env (module_path # rest) all_imps h =
     (case extract_imports env module_path h of
        (Inl e, h1) \<Rightarrow> (Inl e, h1)
      | (Inr module_imports, h1) \<Rightarrow>
          gather_imports env rest (set_update all_imps module_imports) h1)"

definition analyze_dependencies ::
  "env \<Rightarrow> path \<Rightarrow> event list \<Rightarrow> (exn + analysis) \<times> event list" where
  "analyze_dependencies env main_script_path h =
     (case extract_imports env main_script_path h of
        (Inl e, h1) \<Rightarrow> (Inl e, h1)
      | (Inr main_imps, h1) \<Rightarrow>
          (case find_local_modules env main_script_path of
             Inl e \<Rightarrow> (Inl e, h1)
           | Inr local_mods \<Rightarrow>
               (case gather_imports env local_mods (py_set main_imps) h1 of
                  (Inl e, h2) \<Rightarrow> (Inl e, h2)
                | (Inr all_imps, h2) \<Rightarrow>
                    (Inr \<lparr> main_imports = main_imps,
                           local_modules = local_mods,
                           all_imports = all_imps,
                           external_imports =
                             filter (\<lambda>imp. imp \<notin> set stdlib_modules) all_imps,
                           local_module_names = map basename local_mods \<rparr>, h2))))"

section \<open>PyToExeCompiler\<close>

definition cleanup_try ::
  "env \<Rightarrow> path \<Rightarrow> string \<Rightarrow> event list \<Rightarrow> exn option \<times> event list" where
  "cleanup_try env output_dir script_name h =
     (let spec_file = path_join output_dir (script_name @ ''.spec'');
          build_dir = path_join output_dir ''build''
      in case (if path_exists env h spec_file
               then (os_remove env h spec_file, h @ [Remove spec_file]) else (None, h)) of
           (Some e, h1) \<Rightarrow> (Some e, h1)
         | (None, h1) \<Rightarrow>
             if path_exists env h1 build_dir
             then (rmtree env h1 build_dir, h1 @ [Rmtree build_dir]) else (None, h1))"

definition cleanup_temp_files :: "env \<Rightarrow> path \<Rightarrow> string \<Rightarrow> event list \<Rightarrow> event list" where
  "cleanup_temp_files env output_dir script_name h =
     (case cleanup_try env output_dir script_name h of
        (None, h1) \<Rightarrow> h1
      | (Some e, h1) \<Rightarrow> h1 @ [Print (CleanupWarning e)])"

definition build_command :: "path \<Rightarrow> path \<Rightarrow> string \<Rightarrow> string list \<Rightarrow> string list" where
  "build_command python_script_path output_dir script_name externals =
     foldl (\<lambda>cmd external_import. cmd @ [''--hidden-import'', external_import])
       [''pyinstaller'', ''--onefile'', ''--console'',
        ''--distpath'', output_dir,
        ''--workpath'', path_join output_dir ''build'',
        ''--specpath'', output_dir,
        ''--name'', script_name,
        ''--clean''] externals
     @ [python_script_path]"

text \<open>The \<^verbatim>\<open>try\<close> block of \<^verbatim>\<open>compile_to_exe\<close>.\<close>

definition compile_try ::
  "env \<Rightarrow> path \<Rightarrow> path option \<Rightarrow> event list \<Rightarrow> (exn + bool) \<times> event list" where
  "compile_try env python_script_path output_dir_arg h =
     (let output_dir = (case output_dir_arg of None \<Rightarrow> dirname python_script_path | Some d \<Rightarrow> d)
      in case ensure_compiler_dependencies env h of
           (Inl e, h1) \<Rightarrow> (Inl e, h1)
         | (Inr ok1, h1) \<Rightarrow>
             if \<not> ok1 then (Inr False, h1)
             else (case ensure_project_dependencies env python_script_path h1 of
                     (Inl e, h2) \<Rightarrow> (Inl e, h2)
                   | (Inr ok2, h2) \<Rightarrow>
                       if \<not> ok2 then (Inr False, h2)
                       else (case analyze_dependencies env python_script_path
                                    (h2 @ [Print Analyzing]) of
                               (Inl e, h3) \<Rightarrow> (Inl e, h3)
                             | (Inr analysis, h3) \<Rightarrow>
                                 let script_name = fst (splitext (basename python_script_path));
                                     cmd = build_command python_script_path output_dir
                                             script_name (external_imports analysis);
                                     h4 = h3 @ [Print (Compiling python_script_path),
                                                Print (DetectedLocal (local_module_names analysis)),
                                                Print (DetectedExternal (external_imports analysis)),
                                                Print (Command cmd)]
                                 in case check_call (run_packager env h4 cmd) of
                                      Some e \<Rightarrow> (Inl e, h4 @ [RunPackager cmd])
                                    | None \<Rightarrow>
                                        (Inr True,
                                         cleanup_temp_files env output_dir script_name
                                           (h4 @ [RunPackager cmd, Print CompilationCompleted])))))"

definition compile_to_exe ::
  "env \<Rightarrow> path \<Rightarrow> path option \<Rightarrow> event list \<Rightarrow> (exn + bool) \<times> event list" where
  "compile_to_exe env python_script_path output_dir_arg h =
     (case compile_try env python_script_path output_dir_arg h of
        (Inr b, h1) \<Rightarrow> (Inr b, h1)
      | (Inl e, h1) \<Rightarrow>
          (case e of
             CalledProcessError c err \<Rightarrow>
               (Inr False, h1 @ [Print (CompilationError e), Print (ErrorOutput err)])
           | FileNotFoundError m \<Rightarrow> (Inr False, h1 @ [Print PyInstallerNotFound])
           | _ \<Rightarrow> (Inr False, h1 @ [Print (UnexpectedError e)])))"

section \<open>The program on a console that may refuse a message\<close>

text \<open>
  \<^verbatim>\<open>print\<close> raises when the standard output cannot take the text: a \<^verbatim>\<open>UnicodeEncodeError\<close>
  for a character outside its encoding (an emoji on an ASCII or cp1252 console, or a byte of
  a file name that the file system encoding could not decode, which no encoding takes), a
  \<^verbatim>\<open>ValueError\<close> on a closed stream. A console says, for the events so far and a message,
  what printing the message raises (\<open>None\<close>: the message is printed). The functions of this
  section are the functions of \<^verbatim>\<open>compiler.py\<close> with every \<^verbatim>\<open>print\<close> at its place in the
  control flow: inside a \<^verbatim>\<open>try\<close> block its exception goes to the handlers of the block,
  inside a handler or outside any \<^verbatim>\<open>try\<close> it goes to the caller. The functions of the three
  sections above are these functions on a console that prints every message (the facts
  \<open>*_io_eq\<close>).
\<close>

type_synonym console = "event list \<Rightarrow> msg \<Rightarrow> exn option"

definition emit :: "console \<Rightarrow> msg \<Rightarrow> event list \<Rightarrow> exn option \<times> event list" where
  "emit out m h = (case out h m of None \<Rightarrow> (None, h @ [Print m]) | Some e \<Rightarrow> (Some e, h))"

text \<open>Consecutive prints: the first one that raises ends the sequence.\<close>

fun emit_all :: "console \<Rightarrow> msg list \<Rightarrow> event list \<Rightarrow> exn option \<times> event list" where
  "emit_all out [] h = (None, h)"
| "emit_all out (m # ms) h =
     (case emit out m h of
        (Some e, h1) \<Rightarrow> (Some e, h1)
      | (None, h1) \<Rightarrow> emit_all out ms h1)"

text \<open>A console that prints every message, and a console that takes given messages.\<close>

definition prints_all :: "console \<Rightarrow> bool" where
  "prints_all out = (\<forall>h m. out h m = None)"













definition extract_imports_io ::
  "console \<Rightarrow> env \<Rightarrow> path \<Rightarrow> event list \<Rightarrow> (exn + string list) \<times> event list" where
  "extract_imports_io out env file_path h =
     (case extract_imports_try env file_path of
        Inr names \<Rightarrow> (Inr names, h)
      | Inl e \<Rightarrow>
          (case emit out (ParseWarning file_path e) h of
             (Some e', h1) \<Rightarrow> (Inl e', h1)
           | (None, h1) \<Rightarrow> (Inr [], h1)))"







section \<open>Notions used to state the properties\<close>

text \<open>
  The part of \<open>s\<close> before the first occurrence of \<open>sep\<close> (all of \<open>s\<close> when \<open>sep\<close> does not
  occur).
\<close>

fun before :: "string \<Rightarrow> string \<Rightarrow> string" where
  "before sep [] = []"
| "before sep (c # cs) = (if py_startswith (c # cs) sep then [] else c # before sep cs)"

definition occurs :: "string \<Rightarrow> string \<Rightarrow> bool" where
  "occurs sep s = list_ex (\<lambda>i. py_startswith (drop i s) sep) [0..<length s]"

definition skipped :: "string \<Rightarrow> bool" where
  "skipped line = (line = [] \<or> py_startswith line ''#'' \<or> py_startswith line ''-'')"

text \<open>The three cuts applied one after the other, each to what the previous one left.\<close>

definition chained_cut :: "string \<Rightarrow> string" where
  "chained_cut line = before ''<='' (before ''=='' (before ''>='' line))"

text \<open>
  Following the specification's words, "the substring before the first occurrence of any of
  \<^verbatim>\<open>>=\<close>, \<^verbatim>\<open>==\<close>, \<^verbatim>\<open><=\<close> (checked in that priority order, first match wins)": the first
  operator of the list that occurs decides where the line is cut.
\<close>

definition spec_cut_priority :: "string \<Rightarrow> string" where
  "spec_cut_priority line =
     (if occurs ''>='' line then before ''>='' line
      else if occurs ''=='' line then before ''=='' line
      else if occurs ''<='' line then before ''<='' line
      else line)"

text \<open>
  The other reading of the same words: the line is cut at the leftmost position where any of
  the three operators occurs.
\<close>

definition spec_cut_leftmost :: "string \<Rightarrow> string" where
  "spec_cut_leftmost line =
     take (min (length (before ''>='' line))
            (min (length (before ''=='' line)) (length (before ''<='' line)))) line"

definition requirement_names :: "(string \<Rightarrow> string) \<Rightarrow> string list \<Rightarrow> string list" where
  "requirement_names cut_line ls =
     filter (\<lambda>name. name \<noteq> [])
       (map (\<lambda>l. py_strip (cut_line (py_strip l))) (filter (\<lambda>l. \<not> skipped (py_strip l)) ls))"

text \<open>All nodes of a syntax tree.\<close>

fun subnodes :: "ast \<Rightarrow> ast set" where
  "subnodes (Other cs) = insert (Other cs) (\<Union> (subnodes ` set cs))"
| "subnodes (Import names) = {Import names}"
| "subnodes (ImportFrom m) = {ImportFrom m}"

text \<open>The imports \<^verbatim>\<open>extract_imports\<close> reports for a file (none when the file does not parse).\<close>

definition imports_of :: "env \<Rightarrow> path \<Rightarrow> string set" where
  "imports_of env file_path =
     (case extract_imports_try env file_path of Inl e \<Rightarrow> {} | Inr imports \<Rightarrow> set imports)"

text \<open>The events a call added to the history \<open>h\<close> it started from.\<close>

definition added :: "event list \<Rightarrow> event list \<Rightarrow> event list" where
  "added h h' = drop (length h) h'"

text \<open>The packages for which an installation was started, in order.\<close>

fun pip_attempts :: "event list \<Rightarrow> string list" where
  "pip_attempts [] = []"
| "pip_attempts (PipInstall package # evs) = package # pip_attempts evs"
| "pip_attempts (e # evs) = pip_attempts evs"

text \<open>The packages whose installation was reported as successful, in order.\<close>

fun pip_successes :: "event list \<Rightarrow> string list" where
  "pip_successes [] = []"
| "pip_successes (Print (InstalledOk package) # evs) = package # pip_successes evs"
| "pip_successes (e # evs) = pip_successes evs"

text \<open>The answer to the confirmation that lets the installation go ahead.\<close>

fun accepts :: "input_event \<Rightarrow> bool" where
  "accepts (Line s) = (py_lower (py_strip s) \<in> set [''y'', ''yes'', []])"
| "accepts EndOfInput = False"
| "accepts Interrupt = False"

text \<open>Events of the steps that only look: import probes and the messages of the readers.\<close>

fun quiet :: "event \<Rightarrow> bool" where
  "quiet (ImportProbe name) = True"
| "quiet (Print (FoundPackages n)) = True"
| "quiet (Print NoRequirementsFound) = True"
| "quiet (Print (ReadError e)) = True"
| "quiet (Print (ParseWarning p e)) = True"
| "quiet (Print NoRequirementsSkipping) = True"
| "quiet (Print OnlyPyInstaller) = True"
| "quiet (Print AllDepsPresent) = True"
| "quiet e = False"

text \<open>Events of the packaging step: the packaging command and the removals after it.\<close>

fun packaging :: "event \<Rightarrow> bool" where
  "packaging (RunPackager cmd) = True"
| "packaging (Remove p) = True"
| "packaging (Rmtree p) = True"
| "packaging e = False"

fun removal :: "event \<Rightarrow> bool" where
  "removal (Remove p) = True"
| "removal (Rmtree p) = True"
| "removal e = False"

text \<open>A call that started from \<open>h\<close> ended with \<open>h'\<close>, having added events of kind \<open>P\<close> only.\<close>

definition grows :: "(event \<Rightarrow> bool) \<Rightarrow> event list \<Rightarrow> event list \<Rightarrow> bool" where
  "grows P h h' = (\<exists>evs. h' = h @ evs \<and> list_all P evs)"

text \<open>Events of \<^verbatim>\<open>install_package\<close>.\<close>

fun install_event :: "event \<Rightarrow> bool" where
  "install_event (PipInstall package) = True"
| "install_event (Print (Installing package)) = True"
| "install_event (Print (InstalledOk package)) = True"
| "install_event (Print (InstallFailed package e)) = True"
| "install_event (Print (InstallError package e)) = True"
| "install_event e = False"

text \<open>
  Events of the two dependency steps, of the analysis and of the exception handlers: no
  packaging command, no removal, and neither of the two messages that follow a packaging
  command that succeeded.
\<close>

fun preparing :: "event \<Rightarrow> bool" where
  "preparing (RunPackager cmd) = False"
| "preparing (Remove p) = False"
| "preparing (Rmtree p) = False"
| "preparing (Print CompilationCompleted) = False"
| "preparing (Print (CleanupWarning e)) = False"
| "preparing e = True"

text \<open>What the handlers of \<^verbatim>\<open>compile_to_exe\<close> print for an exception.\<close>

definition handler_prints :: "exn \<Rightarrow> event list" where
  "handler_prints e =
     (case e of
        CalledProcessError c err \<Rightarrow> [Print (CompilationError e), Print (ErrorOutput err)]
      | FileNotFoundError m \<Rightarrow> [Print PyInstallerNotFound]
      | _ \<Rightarrow> [Print (UnexpectedError e)])"

text \<open>The announcement of missing project dependencies, and the report after the installs.\<close>

definition banner :: "string list \<Rightarrow> event list" where
  "banner missing_packages =
     [Print Rule, Print ProjectDepsRequired, Print Rule,
      Print (PackagesNeeded missing_packages), Print WillAutoInstall]"

definition report :: "string list \<Rightarrow> event list \<Rightarrow> event list" where
  "report missing_packages evs =
     (if length (pip_successes evs) = length missing_packages
      then [Print AllDepsInstalled]
      else [Print (OnlyPartial (length (pip_successes evs)) (length missing_packages)),
            Print CompilationMayFail])"

text \<open>
  The answer the console gave at the first prompt of a call that started from \<open>h\<close> and added
  \<open>evs\<close>.
\<close>

definition prompt_reply :: "env \<Rightarrow> event list \<Rightarrow> event list \<Rightarrow> input_event" where
  "prompt_reply env h evs = input_reply env (h @ takeWhile (\<lambda>e. e \<noteq> Prompt) evs)"



definition output_dir_of :: "path \<Rightarrow> path option \<Rightarrow> path" where
  "output_dir_of python_script_path output_dir_arg =
     (case output_dir_arg of None \<Rightarrow> dirname python_script_path | Some d \<Rightarrow> d)"

definition script_name_of :: "path \<Rightarrow> string" where
  "script_name_of python_script_path = fst (splitext (basename python_script_path))"

text \<open>The packaging command for a script, an output directory argument and an analysis.\<close>

definition command_for :: "path \<Rightarrow> path option \<Rightarrow> analysis \<Rightarrow> string list" where
  "command_for python_script_path output_dir_arg a =
     build_command python_script_path (output_dir_of python_script_path output_dir_arg)
       (script_name_of python_script_path) (external_imports a)"

text \<open>Events of \<^verbatim>\<open>_cleanup_temp_files\<close> for an output directory and a script name.\<close>

definition cleaning :: "path \<Rightarrow> string \<Rightarrow> event \<Rightarrow> bool" where
  "cleaning output_dir script_name e =
     (e = Remove (path_join output_dir (script_name @ ''.spec'')) \<or>
      e = Rmtree (path_join output_dir ''build'') \<or>
      (\<exists>x. e = Print (CleanupWarning x)))"

section \<open>A sample project\<close>

text \<open>
  A directory \<^verbatim>\<open>proj\<close> with the entry point \<^verbatim>\<open>app.py\<close> (importing os, json and requests), a
  local module \<^verbatim>\<open>util.py\<close> (importing numpy) and a six-line manifest. Only the packaging tool
  is importable; every subprocess succeeds; the program was started with one argument.
\<close>

definition six_lines :: "string list" where
  "six_lines = [''# comment'', [], ''flask>=2.0'', ''requests==2.31.0'', ''-e .'', ''click'']"

definition sample :: env where
  "sample = \<lparr>
     argv = [''compiler.py'', ''proj/app.py''],
     input_reply = (\<lambda>h. EndOfInput),
     import_module = (\<lambda>h name. if name = ''pyinstaller'' then None else Some (ImportError name)),
     pip_install = (\<lambda>h package. Exited 0 []),
     run_packager = (\<lambda>h cmd. Exited 0 []),
     path_exists = (\<lambda>h p. p \<in> set [''proj/requirements.txt'', ''proj/app.spec'', ''proj/build'']),
     os_remove = (\<lambda>h p. None),
     rmtree = (\<lambda>h p. None),
     open_lines = (\<lambda>p. if p = ''proj/requirements.txt'' then (six_lines, None)
                        else ([], Some (FileNotFoundError p))),
     parse_source = (\<lambda>p.
        if p = ''proj/app.py''
        then Inr (Other [Import [''os''], Import [''json''], Import [''requests'']])
        else if p = ''proj/util.py'' then Inr (Other [Import [''numpy'']])
        else Inl (FileNotFoundError p)),
     listdir = (\<lambda>d. if d = ''proj'' then Inr [''app.py'', ''util.py'', ''requirements.txt'']
                     else Inl (FileNotFoundError d)) \<rparr>"

text \<open>The same project with another manifest.\<close>

definition with_manifest :: "string list \<Rightarrow> exn option \<Rightarrow> env" where
  "with_manifest ls err =
     sample \<lparr> open_lines := (\<lambda>p. if p = ''proj/requirements.txt'' then (ls, err)
                                   else ([], Some (FileNotFoundError p))) \<rparr>"


definition interactive :: "input_event \<Rightarrow> env" where
  "interactive reply = sample \<lparr> argv := [''compiler.py''], input_reply := (\<lambda>h. reply) \<rparr>"


definition cleanup_fails :: env where
  "cleanup_fails = sample \<lparr> os_remove := (\<lambda>h p. Some (OtherException ''busy'')) \<rparr>"

definition tool_in_manifest :: env where
  "tool_in_manifest = (with_manifest [''PyInstaller'', ''flask''] None)
     \<lparr> import_module := (\<lambda>h name. Some (ImportError name)) \<rparr>"

definition two_operators :: "string list" where
  "two_operators = [''requests<=3.0,>=2.0'', ''a<==1'']"

text \<open>
  A standard output with the ASCII encoding: printing raises a \<^verbatim>\<open>UnicodeEncodeError\<close> for a
  message with a character outside ASCII. \<open>has_emoji\<close> holds for the messages whose text in
  \<^verbatim>\<open>compiler.py\<close> contains an emoji, \<open>texts\<close> are the strings put into the message.
\<close>

fun has_emoji :: "msg \<Rightarrow> bool" where
  "has_emoji Rule = False"
| "has_emoji CompilerDepsRequired = False"
| "has_emoji (RequiredForCompilation ps) = False"
| "has_emoji WillAutoInstall = False"
| "has_emoji PipInstallHint = False"
| "has_emoji ProjectDepsRequired = False"
| "has_emoji (PackagesNeeded ps) = False"
| "has_emoji CompilationMayFail = False"
| "has_emoji (ParseWarning p e) = False"
| "has_emoji (ErrorOutput s) = False"
| "has_emoji m = True"

fun exn_texts :: "exn \<Rightarrow> string list" where
  "exn_texts (CalledProcessError c err) = []"
| "exn_texts (FileNotFoundError m) = [m]"
| "exn_texts (ImportError m) = [m]"
| "exn_texts (OtherException m) = [m]"

fun texts :: "msg \<Rightarrow> string list" where
  "texts (Installing p) = [p]"
| "texts (InstalledOk p) = [p]"
| "texts (InstallFailed p e) = p # exn_texts e"
| "texts (InstallError p e) = p # exn_texts e"
| "texts (ReadError e) = exn_texts e"
| "texts (RequiredForCompilation ps) = ps"
| "texts (PackagesNeeded ps) = ps"
| "texts (ParseWarning p e) = p # exn_texts e"
| "texts (Compiling p) = [p]"
| "texts (DetectedLocal ns) = ns"
| "texts (DetectedExternal ns) = ns"
| "texts (Command cmd) = cmd"
| "texts (CompilationError e) = exn_texts e"
| "texts (ErrorOutput s) = [s]"
| "texts (UnexpectedError e) = exn_texts e"
| "texts (CleanupWarning e) = exn_texts e"
| "texts m = []"

definition is_ascii :: "string \<Rightarrow> bool" where
  "is_ascii s = list_all (\<lambda>c. (of_char c :: nat) < 128) s"

definition ascii_console :: console where
  "ascii_console h m =
     (if has_emoji m then Some (OtherException ''UnicodeEncodeError'')
      else if list_all is_ascii (texts m) then None
      else Some (OtherException ''UnicodeEncodeError''))"


text \<open>A source file of the sample directory whose name has a letter outside ASCII.\<close>

definition accented :: path where
  "accented = ''proj/caf'' @ [CHR 0xE9] @ ''.py''"

section \<open>Auxiliary facts\<close>

lemma py_split_from_hd: "sep \<noteq> [] \<Longrightarrow> hd (py_split_from sep cur s) = cur @ before sep s"
  by (induction s arbitrary: cur) auto

lemma py_split_nonempty: "py_split sep s \<noteq> []"
  unfolding py_split_def
proof -
  have "py_split_from sep cur s \<noteq> []" for cur
    by (induction s arbitrary: cur) auto
  then show "py_split_from sep [] s \<noteq> []" .
qed

lemma hd_py_split: "sep \<noteq> [] \<Longrightarrow> hd (py_split sep s) = before sep s"
  by (simp add: py_split_def py_split_from_hd)

lemma before_prefix: "take (length (before sep s)) s = before sep s"
  by (induction s) auto

lemma before_stops:
  "before sep s \<noteq> s \<Longrightarrow> py_startswith (drop (length (before sep s)) s) sep"
  by (induction s) (auto split: if_splits)

lemma before_first: "i < length (before sep s) \<Longrightarrow> \<not> py_startswith (drop i s) sep"
proof (induction s arbitrary: i)
  case Nil
  then show ?case by simp
next
  case (Cons c cs)
  then show ?case by (cases i) (auto split: if_splits)
qed

lemma read_requirements_eq:
  "read_requirements ls packages = packages @ requirement_names chained_cut ls"
  by (induction ls arbitrary: packages)
     (simp_all add: requirement_names_def chained_cut_def skipped_def hd_py_split Let_def)

lemma grows_refl: "grows P h h"
  by (simp add: grows_def)

lemma grows_app: "list_all P evs \<Longrightarrow> grows P h (h @ evs)"
  by (simp add: grows_def)

lemma grows_trans: "grows P h h1 \<Longrightarrow> grows P h1 h2 \<Longrightarrow> grows P h h2"
  by (auto simp: grows_def)

lemma grows_step: "grows P h h1 \<Longrightarrow> list_all P evs \<Longrightarrow> grows P h (h1 @ evs)"
  by (auto simp: grows_def)

lemma grows_mono: "grows P h h' \<Longrightarrow> (\<And>e. P e \<Longrightarrow> Q e) \<Longrightarrow> grows Q h h'"
  by (auto simp: grows_def list_all_iff)

lemma grows_added: "grows P h h' \<Longrightarrow> h' = h @ added h h' \<and> list_all P (added h h')"
  by (auto simp: grows_def added_def)

lemma added_append: "added h (h @ evs) = evs"
  by (simp add: added_def)

lemma quiet_preparing: "quiet e \<Longrightarrow> preparing e"
  by (cases e rule: quiet.cases) simp_all

lemma install_preparing: "install_event e \<Longrightarrow> preparing e"
  by (cases e rule: install_event.cases) simp_all

lemma pip_attempts_append: "pip_attempts (xs @ ys) = pip_attempts xs @ pip_attempts ys"
  by (induction xs rule: pip_attempts.induct) simp_all

lemma pip_successes_append: "pip_successes (xs @ ys) = pip_successes xs @ pip_successes ys"
  by (induction xs rule: pip_successes.induct) simp_all

lemma quiet_no_pip: "list_all quiet evs \<Longrightarrow> pip_attempts evs = []"
  by (induction evs rule: pip_attempts.induct) simp_all

lemma check_package_installed_grows:
  "grows quiet h (snd (check_package_installed env package h))"
  by (auto simp: check_package_installed_def Let_def grows_def split: option.splits exn.splits)

lemma collect_missing_grows: "grows quiet h (snd (collect_missing env ps missing h))"
proof (induction ps arbitrary: missing h)
  case Nil
  then show ?case by (simp add: grows_refl)
next
  case (Cons p ps)
  obtain r h1 where c: "check_package_installed env p h = (r, h1)"
    by fastforce
  have g1: "grows quiet h h1"
    using check_package_installed_grows [of h env p] c by simp
  show ?case
  proof (cases r)
    case (Inl e)
    then show ?thesis using c g1 by simp
  next
    case (Inr installed)
    have "grows quiet h1 (snd (collect_missing env ps (if installed then missing else missing @ [p]) h1))"
      by (rule Cons.IH)
    then show ?thesis using c g1 Inr by (auto intro: grows_trans)
  qed
qed

lemma install_package_shape:
  "\<exists>evs. snd (install_package env package h) = h @ evs \<and> list_all install_event evs \<and>
     pip_attempts evs = [package] \<and>
     pip_successes evs = (if fst (install_package env package h) then [package] else [])"
  by (auto simp: install_package_def Let_def split: option.splits exn.splits)

lemma install_each_shape:
  "\<exists>evs. snd (install_each env ps k h) = h @ evs \<and> list_all install_event evs \<and>
     pip_attempts evs = ps \<and> fst (install_each env ps k h) = k + length (pip_successes evs)"
proof (induction ps arbitrary: k h)
  case Nil
  then show ?case by simp
next
  case (Cons p ps)
  obtain ok h1 where i: "install_package env p h = (ok, h1)"
    by fastforce
  obtain evs1 where e1: "h1 = h @ evs1" "list_all install_event evs1"
    "pip_attempts evs1 = [p]" "pip_successes evs1 = (if ok then [p] else [])"
    using install_package_shape [of env p h] i by auto
  obtain evs2 where e2: "snd (install_each env ps (if ok then k + 1 else k) h1) = h1 @ evs2"
    "list_all install_event evs2" "pip_attempts evs2 = ps"
    "fst (install_each env ps (if ok then k + 1 else k) h1) =
       (if ok then k + 1 else k) + length (pip_successes evs2)"
    using Cons.IH [of "if ok then k + 1 else k" h1] by blast
  have "snd (install_each env (p # ps) k h) = h @ (evs1 @ evs2)"
    using i e1 e2 by simp
  moreover have "list_all install_event (evs1 @ evs2)"
    using e1 e2 by simp
  moreover have "pip_attempts (evs1 @ evs2) = p # ps"
    using e1 e2 by (simp add: pip_attempts_append)
  moreover have "fst (install_each env (p # ps) k h) = k + length (pip_successes (evs1 @ evs2))"
    using i e1 e2 by (simp add: pip_successes_append)
  ultimately show ?case by blast
qed

lemma install_required_grows: "grows preparing h (snd (install_required env ps h))"
proof (induction ps arbitrary: h)
  case Nil
  then show ?case by (simp add: grows_refl)
next
  case (Cons p ps)
  obtain ok h1 where i: "install_package env p h = (ok, h1)"
    by fastforce
  obtain evs1 where e1: "h1 = h @ evs1" "list_all install_event evs1"
    using install_package_shape [of env p h] i by auto
  have g1: "grows preparing h h1"
    using e1 by (auto simp: grows_def list_all_iff intro: install_preparing)
  show ?case
  proof (cases ok)
    case True
    then show ?thesis using i g1 Cons.IH [of h1] by (auto intro: grows_trans)
  next
    case False
    then show ?thesis using i g1 by (auto intro: grows_step)
  qed
qed

lemma ensure_compiler_dependencies_grows:
  "grows preparing h (snd (ensure_compiler_dependencies env h))"
proof -
  obtain r h1 where c: "collect_missing env REQUIRED_PACKAGES [] h = (r, h1)"
    by fastforce
  have g1: "grows preparing h h1"
    using collect_missing_grows [of h env REQUIRED_PACKAGES "[]"] c
    by (auto intro: grows_mono quiet_preparing)
  show ?thesis
  proof (cases r)
    case (Inl e)
    then show ?thesis using c g1 by (simp add: ensure_compiler_dependencies_def)
  next
    case (Inr missing)
    let ?h2 = "h1 @ [Print Rule, Print CompilerDepsRequired, Print Rule,
                     Print (RequiredForCompilation missing), Print WillAutoInstall]"
    have g2: "grows preparing h ?h2"
      using g1 by (auto intro: grows_step)
    obtain ok h3 where i: "install_required env missing ?h2 = (ok, h3)"
      by fastforce
    have "grows preparing h h3"
      using g2 install_required_grows [of ?h2 env missing] i by (auto intro: grows_trans)
    then show ?thesis
      using c g1 Inr i by (simp add: ensure_compiler_dependencies_def)
  qed
qed

lemma parse_requirements_file_grows:
  "grows quiet h (snd (parse_requirements_file env p h))"
  by (auto simp: parse_requirements_file_def parse_requirements_try_def Let_def grows_def
      split: prod.splits option.splits)

lemma parse_requirements_file_total: "\<exists>packages. fst (parse_requirements_file env p h) = Inr packages"
  by (auto simp: parse_requirements_file_def split: prod.splits option.splits)

lemma ask_consent_cases:
  "(length (argv env) \<noteq> 1 \<and> ask_consent env h = (True, h)) \<or>
   (length (argv env) = 1 \<and> accepts (input_reply env h) \<and> ask_consent env h = (True, h @ [Prompt])) \<or>
   (length (argv env) = 1 \<and> \<not> accepts (input_reply env h) \<and> fst (ask_consent env h) = False \<and>
      (snd (ask_consent env h) = h @ [Prompt] \<or> snd (ask_consent env h) = h @ [Prompt, Print DepsNotInstalled]))"
  by (cases "input_reply env h") (auto simp: ask_consent_def Let_def)

lemma install_missing_shape:
  assumes "install_missing env m h = (r, h')"
  shows "(\<exists>prompt inst. h' = h @ banner m @ prompt @ inst @ report m inst \<and> r = Inr True \<and>
            list_all install_event inst \<and> pip_attempts inst = m \<and>
            ((length (argv env) = 1 \<and> accepts (input_reply env (h @ banner m)) \<and> prompt = [Prompt]) \<or>
             (length (argv env) \<noteq> 1 \<and> prompt = []))) \<or>
         (length (argv env) = 1 \<and> \<not> accepts (input_reply env (h @ banner m)) \<and> r = Inr False \<and>
            (h' = h @ banner m @ [Prompt] \<or> h' = h @ banner m @ [Prompt, Print DepsNotInstalled]))"
proof -
  let ?hb = "h @ banner m"
  obtain go h1 where a: "ask_consent env ?hb = (go, h1)"
    by fastforce
  have im: "install_missing env m h =
      (if \<not> go then (Inr False, h1)
       else (case install_each env m 0 h1 of
               (success_count, h2) \<Rightarrow>
                 if success_count = length m then (Inr True, h2 @ [Print AllDepsInstalled])
                 else (Inr True, h2 @ [Print (OnlyPartial success_count (length m)),
                                       Print CompilationMayFail])))"
    using a by (simp add: install_missing_def banner_def)
  show ?thesis
  proof (cases go)
    case False
    then show ?thesis
      using ask_consent_cases [of env ?hb] a im assms by auto
  next
    case True
    obtain inst where s: "snd (install_each env m 0 h1) = h1 @ inst" "list_all install_event inst"
      "pip_attempts inst = m" "fst (install_each env m 0 h1) = 0 + length (pip_successes inst)"
      using install_each_shape [of env m 0 h1] by blast
    have res: "r = Inr True" "h' = h1 @ inst @ report m inst"
      using im True assms s by (auto simp: report_def split: prod.splits if_splits)
    from ask_consent_cases [of env ?hb] a True
    consider "length (argv env) \<noteq> 1" "h1 = ?hb"
      | "length (argv env) = 1" "accepts (input_reply env ?hb)" "h1 = ?hb @ [Prompt]"
      by auto
    then show ?thesis
    proof cases
      case 1
      then show ?thesis using res s by auto
    next
      case 2
      then show ?thesis using res s by auto
    qed
  qed
qed


lemma install_missing_grows: "grows preparing h (snd (install_missing env m h))"
proof -
  obtain r h' where i: "install_missing env m h = (r, h')"
    by fastforce
  have b: "list_all preparing (banner m)"
    by (simp add: banner_def)
  have rp: "list_all preparing (report m inst)" for inst
    by (simp add: report_def)
  have ip: "list_all install_event inst \<Longrightarrow> list_all preparing inst" for inst
    by (auto simp: list_all_iff intro: install_preparing)
  from install_missing_shape [OF i] show ?thesis
    using i b rp ip by (auto simp: grows_def)
qed

lemma check_and_install_shape:
  assumes "check_and_install env p h = (r, h')"
  shows "(grows quiet h h' \<and> r \<noteq> Inr False) \<or>
         (\<exists>pre m. list_all quiet pre \<and> m \<noteq> [] \<and> install_missing env m (h @ pre) = (r, h'))"
proof (cases "find_requirements_file env p h")
  case None
  then show ?thesis using assms by (auto simp: check_and_install_def grows_def)
next
  case (Some rp)
  obtain req h1 where pr: "parse_requirements_file env rp h = (Inr req, h1)"
    using parse_requirements_file_total [of env rp h] by (cases "parse_requirements_file env rp h") auto
  obtain evs1 where e1: "h1 = h @ evs1" "list_all quiet evs1"
    using parse_requirements_file_grows [of h env rp] pr by (auto simp: grows_def)
  show ?thesis
  proof (cases "req = []")
    case True
    then show ?thesis using assms Some pr e1 by (auto simp: check_and_install_def grows_def)
  next
    case False
    obtain rm h2 where cm: "collect_missing env req [] h1 = (rm, h2)"
      by fastforce
    obtain evs2 where e2: "h2 = h1 @ evs2" "list_all quiet evs2"
      using collect_missing_grows [of h1 env req "[]"] cm by (auto simp: grows_def)
    show ?thesis
    proof (cases rm)
      case (Inl e)
      then show ?thesis
        using assms Some pr e1 False cm e2 by (auto simp: check_and_install_def grows_def)
    next
      case (Inr missing)
      show ?thesis
      proof (cases "missing = []")
        case True
        then show ?thesis
          using assms Some pr e1 False cm e2 Inr by (auto simp: check_and_install_def grows_def)
      next
        case nonempty: False
        have "install_missing env missing (h @ (evs1 @ evs2)) = (r, h')"
          using assms Some pr e1 False cm e2 Inr nonempty by (simp add: check_and_install_def)
        moreover have "list_all quiet (evs1 @ evs2)"
          using e1 e2 by simp
        ultimately show ?thesis using nonempty by blast
      qed
    qed
  qed
qed

lemma ensure_project_shape:
  assumes "ensure_project_dependencies env p h = (r, h')"
  shows "(grows quiet h h' \<and> r \<noteq> Inr False) \<or>
         (\<exists>pre m. list_all quiet pre \<and> m \<noteq> [] \<and> install_missing env m (h @ pre) = (r, h'))"
proof (cases "find_requirements_file env p h")
  case None
  then show ?thesis using assms by (auto simp: ensure_project_dependencies_def grows_def)
next
  case (Some rp)
  obtain req h1 where pr: "parse_requirements_file env rp h = (Inr req, h1)"
    using parse_requirements_file_total [of env rp h] by (cases "parse_requirements_file env rp h") auto
  obtain evs1 where e1: "h1 = h @ evs1" "list_all quiet evs1"
    using parse_requirements_file_grows [of h env rp] pr by (auto simp: grows_def)
  have eq: "ensure_project_dependencies env p h =
      (if req = [] then (Inr True, h1)
       else if filter (\<lambda>pkg. py_lower pkg \<noteq> ''pyinstaller'') req = []
       then (Inr True, h1 @ [Print OnlyPyInstaller])
       else check_and_install env p h1)"
    using Some pr by (simp add: ensure_project_dependencies_def Let_def)
  show ?thesis
  proof (cases "req = [] \<or> filter (\<lambda>pkg. py_lower pkg \<noteq> ''pyinstaller'') req = []")
    case True
    have "list_all quiet (evs1 @ [Print OnlyPyInstaller])"
      using e1 by simp
    then have "grows quiet h (h1 @ [Print OnlyPyInstaller])" "grows quiet h h1"
      using e1 by (auto simp: grows_def)
    then show ?thesis
      using assms eq True by (auto split: if_splits)
  next
    case False
    then have c: "check_and_install env p h1 = (r, h')"
      using assms eq by auto
    from check_and_install_shape [OF c] show ?thesis
    proof
      assume "grows quiet h1 h' \<and> r \<noteq> Inr False"
      then show ?thesis using e1 by (auto simp: grows_def)
    next
      assume "\<exists>pre m. list_all quiet pre \<and> m \<noteq> [] \<and> install_missing env m (h1 @ pre) = (r, h')"
      then obtain pre m where "list_all quiet pre" "m \<noteq> []"
        "install_missing env m (h1 @ pre) = (r, h')" by blast
      then have "list_all quiet (evs1 @ pre) \<and> m \<noteq> [] \<and> install_missing env m (h @ (evs1 @ pre)) = (r, h')"
        using e1 by simp
      then show ?thesis by blast
    qed
  qed
qed

lemma ensure_project_dependencies_grows:
  "grows preparing h (snd (ensure_project_dependencies env p h))"
proof -
  obtain r h' where e: "ensure_project_dependencies env p h = (r, h')"
    by fastforce
  from ensure_project_shape [OF e] show ?thesis
  proof
    assume "grows quiet h h' \<and> r \<noteq> Inr False"
    then show ?thesis using e by (auto intro: grows_mono quiet_preparing)
  next
    assume "\<exists>pre m. list_all quiet pre \<and> m \<noteq> [] \<and> install_missing env m (h @ pre) = (r, h')"
    then obtain pre m where q: "list_all quiet pre"
      and i: "install_missing env m (h @ pre) = (r, h')" by blast
    have "grows preparing h (h @ pre)"
      using q by (auto simp: grows_def list_all_iff intro: quiet_preparing)
    moreover have "grows preparing (h @ pre) h'"
      using install_missing_grows [of "h @ pre" env m] i by simp
    ultimately show ?thesis using e by (auto intro: grows_trans)
  qed
qed

lemma set_walk: "set (walk todo) = \<Union> (subnodes ` set todo)"
proof (induction todo rule: walk.induct)
  case 1
  then show ?case by simp
next
  case (2 n todo)
  then show ?case by (cases n) auto
qed

lemma set_walk_tree: "set (walk [tree]) = subnodes tree"
  using set_walk [of "[tree]"] by (simp del: walk.simps)

lemma set_collect_imports:
  "set (collect_imports ns acc) = set acc \<union> {x. \<exists>names. Import names \<in> set ns \<and> x \<in> set names}
      \<union> {m. m \<noteq> [] \<and> ImportFrom (Some m) \<in> set ns}"
  by (induction ns acc rule: collect_imports.induct) (auto split: option.splits)

lemma extract_imports_try_ok:
  assumes "parse_source env p = Inr tree"
  shows "\<exists>xs. extract_imports_try env p = Inr xs \<and> distinct xs \<and>
     set xs = {x. \<exists>names. Import names \<in> subnodes tree \<and> x \<in> set names} \<union>
              {m. m \<noteq> [] \<and> ImportFrom (Some m) \<in> subnodes tree}"
  using assms
  by (simp add: extract_imports_try_def py_set_def set_collect_imports set_walk_tree del: walk.simps)

lemma extract_imports_try_distinct: "extract_imports_try env p = Inr xs \<Longrightarrow> distinct xs"
  by (auto simp: extract_imports_try_def py_set_def split: sum.splits)

lemma extract_imports_fst:
  "fst (extract_imports env p h) =
     Inr (case extract_imports_try env p of Inl e \<Rightarrow> [] | Inr xs \<Rightarrow> xs)"
  by (simp add: extract_imports_def split: sum.splits)

lemma extract_imports_set:
  "extract_imports env p h = (Inr xs, h1) \<Longrightarrow> set xs = imports_of env p \<and> distinct xs"
  by (auto simp: extract_imports_def imports_of_def extract_imports_try_distinct split: sum.splits)

lemma extract_imports_grows: "grows quiet h (snd (extract_imports env p h))"
  by (auto simp: extract_imports_def grows_def split: sum.splits)

lemma set_update_set: "set (set_update s xs) = set s \<union> set xs"
  by (auto simp: set_update_def)

lemma set_update_distinct: "distinct s \<Longrightarrow> distinct (set_update s xs)"
  by (auto simp: set_update_def)

lemma gather_imports_shape:
  "\<exists>alls. fst (gather_imports env ms acc h) = Inr alls \<and>
     fst (gather_imports env ms acc h0) = Inr alls \<and>
     set alls = set acc \<union> \<Union> (imports_of env ` set ms) \<and>
     (distinct acc \<longrightarrow> distinct alls) \<and>
     grows quiet h (snd (gather_imports env ms acc h))"
proof (induction ms arbitrary: acc h h0)
  case Nil
  then show ?case by (simp add: grows_refl)
next
  case (Cons m ms)
  obtain xs h1 where x: "extract_imports env m h = (Inr xs, h1)"
    using extract_imports_fst [of env m h] by (cases "extract_imports env m h") auto
  obtain h1' where x0: "extract_imports env m h0 = (Inr xs, h1')"
    using extract_imports_fst [of env m h0] extract_imports_fst [of env m h] x
    by (cases "extract_imports env m h0") auto
  have g1: "grows quiet h h1"
    using extract_imports_grows [of h env m] x by simp
  have sx: "set xs = imports_of env m"
    using extract_imports_set [OF x] by simp
  obtain alls where a: "fst (gather_imports env ms (set_update acc xs) h1) = Inr alls"
    "fst (gather_imports env ms (set_update acc xs) h1') = Inr alls"
    "set alls = set (set_update acc xs) \<union> \<Union> (imports_of env ` set ms)"
    "distinct (set_update acc xs) \<longrightarrow> distinct alls"
    "grows quiet h1 (snd (gather_imports env ms (set_update acc xs) h1))"
    using Cons.IH [of "set_update acc xs" h1 h1'] by blast
  show ?case
    using x x0 g1 sx a by (auto simp: set_update_set set_update_distinct intro: grows_trans)
qed


lemma find_local_modules_ok:
  "find_local_modules env p = Inr ms \<longleftrightarrow>
     (\<exists>files. listdir env (dirname p) = Inr files \<and>
        ms = map (path_join (dirname p))
               (filter (\<lambda>file. py_endswith file ''.py'' \<and> file \<noteq> basename p \<and>
                               \<not> py_startswith file ''compiler'') files))"
  by (auto simp: find_local_modules_def Let_def split: sum.splits)

lemma analyze_dependencies_shape:
  "(\<forall>e. find_local_modules env p = Inl e \<longrightarrow>
       fst (analyze_dependencies env p h) = Inl e \<and> fst (analyze_dependencies env p h0) = Inl e) \<and>
   (\<forall>ms. find_local_modules env p = Inr ms \<longrightarrow>
      (\<exists>a. fst (analyze_dependencies env p h) = Inr a \<and>
           fst (analyze_dependencies env p h0) = Inr a \<and>
           set (main_imports a) = imports_of env p \<and>
           local_modules a = ms \<and>
           set (all_imports a) = imports_of env p \<union> \<Union> (imports_of env ` set ms) \<and>
           distinct (all_imports a) \<and>
           external_imports a = filter (\<lambda>imp. imp \<notin> set stdlib_modules) (all_imports a) \<and>
           local_module_names a = map basename ms)) \<and>
   grows quiet h (snd (analyze_dependencies env p h))"
proof -
  obtain xs h1 where x: "extract_imports env p h = (Inr xs, h1)"
    using extract_imports_fst [of env p h] by (cases "extract_imports env p h") auto
  obtain h1' where x0: "extract_imports env p h0 = (Inr xs, h1')"
    using extract_imports_fst [of env p h0] extract_imports_fst [of env p h] x
    by (cases "extract_imports env p h0") auto
  have g1: "grows quiet h h1"
    using extract_imports_grows [of h env p] x by simp
  have sx: "set xs = imports_of env p"
    using extract_imports_set [OF x] by simp
  show ?thesis
  proof (cases "find_local_modules env p")
    case (Inl e)
    then show ?thesis using x x0 g1 by (simp add: analyze_dependencies_def)
  next
    case (Inr ms)
    obtain alls where a: "fst (gather_imports env ms (py_set xs) h1) = Inr alls"
      "fst (gather_imports env ms (py_set xs) h1') = Inr alls"
      "set alls = set (py_set xs) \<union> \<Union> (imports_of env ` set ms)"
      "distinct (py_set xs) \<longrightarrow> distinct alls"
      "grows quiet h1 (snd (gather_imports env ms (py_set xs) h1))"
      using gather_imports_shape [of env ms "py_set xs" h1 h1'] by blast
    obtain h2 where g: "gather_imports env ms (py_set xs) h1 = (Inr alls, h2)"
      using a(1) by (cases "gather_imports env ms (py_set xs) h1") auto
    obtain h2' where g0: "gather_imports env ms (py_set xs) h1' = (Inr alls, h2')"
      using a(2) by (cases "gather_imports env ms (py_set xs) h1'") auto
    have "grows quiet h h2"
      using g1 a(5) g by (auto intro: grows_trans)
    then show ?thesis
      using Inr x x0 sx a g g0 by (simp add: analyze_dependencies_def py_set_def)
  qed
qed

lemma cleanup_temp_files_grows:
  "grows (cleaning out name) h (cleanup_temp_files env out name h)"
  by (auto simp: cleanup_temp_files_def cleanup_try_def Let_def grows_def cleaning_def
      split: prod.splits option.splits if_splits)


lemma build_command_eq:
  "build_command p out name externals =
     [''pyinstaller'', ''--onefile'', ''--console'', ''--distpath'', out,
      ''--workpath'', path_join out ''build'', ''--specpath'', out, ''--name'', name, ''--clean'']
     @ concat (map (\<lambda>i. [''--hidden-import'', i]) externals) @ [p]"
proof -
  have "foldl (\<lambda>cmd i. cmd @ [''--hidden-import'', i]) base externals =
          base @ concat (map (\<lambda>i. [''--hidden-import'', i]) externals)" for base
    by (induction externals arbitrary: base) simp_all
  then show ?thesis by (simp add: build_command_def)
qed

lemma compile_try_shape:
  assumes "compile_try env p od h = (r, h')"
  shows "(grows preparing h h' \<and> r \<noteq> Inr True) \<or>
    (\<exists>pre a. list_all preparing pre \<and> fst (analyze_dependencies env p []) = Inr a \<and>
       ((\<exists>e. check_call (run_packager env (h @ pre)
                 (build_command p (output_dir_of p od) (script_name_of p) (external_imports a))) = Some e \<and>
             r = Inl e \<and>
             h' = h @ pre @ [RunPackager
                 (build_command p (output_dir_of p od) (script_name_of p) (external_imports a))]) \<or>
        (check_call (run_packager env (h @ pre)
                 (build_command p (output_dir_of p od) (script_name_of p) (external_imports a))) = None \<and>
             r = Inr True \<and>
             h' = cleanup_temp_files env (output_dir_of p od) (script_name_of p)
                    (h @ pre @ [RunPackager
                       (build_command p (output_dir_of p od) (script_name_of p) (external_imports a)),
                      Print CompilationCompleted]))))"
proof -
  obtain r1 h1 where c1: "ensure_compiler_dependencies env h = (r1, h1)"
    by fastforce
  have g1: "grows preparing h h1"
    using ensure_compiler_dependencies_grows [of h env] c1 by simp
  obtain r2 h2 where c2: "ensure_project_dependencies env p h1 = (r2, h2)"
    by fastforce
  have g2: "grows preparing h h2"
    using g1 ensure_project_dependencies_grows [of h1 env p] c2 by (auto intro: grows_trans)
  obtain r3 h3 where c3: "analyze_dependencies env p (h2 @ [Print Analyzing]) = (r3, h3)"
    by fastforce
  have "grows quiet (h2 @ [Print Analyzing]) h3"
    using analyze_dependencies_shape [of env p "h2 @ [Print Analyzing]" "[]"] c3 by simp
  then have "grows preparing (h2 @ [Print Analyzing]) h3"
    by (auto intro: grows_mono quiet_preparing)
  moreover have "grows preparing h (h2 @ [Print Analyzing])"
    using g2 by (auto intro: grows_step)
  ultimately have g3: "grows preparing h h3"
    by (rule grows_trans [rotated])
  have same: "fst (analyze_dependencies env p []) = r3"
    using analyze_dependencies_shape [of env p "h2 @ [Print Analyzing]" "[]"] c3
    by (cases "find_local_modules env p") auto
  consider (raise1) e where "r1 = Inl e" | (stop1) "r1 = Inr False"
    | (raise2) e where "r1 = Inr True" "r2 = Inl e" | (stop2) "r1 = Inr True" "r2 = Inr False"
    | (raise3) e where "r1 = Inr True" "r2 = Inr True" "r3 = Inl e"
    | (run) a where "r1 = Inr True" "r2 = Inr True" "r3 = Inr a"
    by (cases r1; cases r2; cases r3) auto
  then show ?thesis
  proof cases
    case raise1
    then show ?thesis using assms c1 g1 by (auto simp: compile_try_def)
  next
    case stop1
    then show ?thesis using assms c1 g1 by (auto simp: compile_try_def)
  next
    case raise2
    then show ?thesis using assms c1 c2 g2 by (auto simp: compile_try_def)
  next
    case stop2
    then show ?thesis using assms c1 c2 g2 by (auto simp: compile_try_def)
  next
    case raise3
    then show ?thesis using assms c1 c2 c3 g3 by (auto simp: compile_try_def)
  next
    case run
    let ?cmd = "build_command p (output_dir_of p od) (script_name_of p) (external_imports a)"
    let ?h4 = "h3 @ [Print (Compiling p), Print (DetectedLocal (local_module_names a)),
                     Print (DetectedExternal (external_imports a)), Print (Command ?cmd)]"
    have "grows preparing h ?h4"
      using g3 by (auto intro: grows_step)
    then obtain pre where pre: "?h4 = h @ pre" "list_all preparing pre"
      by (auto simp: grows_def)
    have ct: "compile_try env p od h =
        (case check_call (run_packager env ?h4 ?cmd) of
           Some e \<Rightarrow> (Inl e, ?h4 @ [RunPackager ?cmd])
         | None \<Rightarrow> (Inr True, cleanup_temp_files env (output_dir_of p od) (script_name_of p)
                                (?h4 @ [RunPackager ?cmd, Print CompilationCompleted])))"
      using run c1 c2 c3
      by (simp add: compile_try_def Let_def output_dir_of_def script_name_of_def
          split: option.splits)
    have a: "fst (analyze_dependencies env p []) = Inr a"
      using same run by simp
    show ?thesis
    proof (cases "check_call (run_packager env ?h4 ?cmd)")
      case None
      then have "r = Inr True"
        "h' = cleanup_temp_files env (output_dir_of p od) (script_name_of p)
                (h @ pre @ [RunPackager ?cmd, Print CompilationCompleted])"
        "check_call (run_packager env (h @ pre) ?cmd) = None"
        using assms ct pre(1) by (simp_all del: append_assoc add: append_assoc [symmetric])
      then show ?thesis using a pre(2) by blast
    next
      case (Some e)
      then have "r = Inl e" "h' = h @ pre @ [RunPackager ?cmd]"
        "check_call (run_packager env (h @ pre) ?cmd) = Some e"
        using assms ct pre(1) by (simp_all del: append_assoc add: append_assoc [symmetric])
      then show ?thesis using a pre(2) by blast
    qed
  qed
qed


lemma compile_to_exe_handlers:
  "compile_to_exe env p od h =
     (case compile_try env p od h of
        (Inr b, h1) \<Rightarrow> (Inr b, h1)
      | (Inl e, h1) \<Rightarrow> (Inr False, h1 @ handler_prints e))"
  by (simp add: compile_to_exe_def handler_prints_def split: prod.splits sum.splits exn.splits)

lemma handler_prints_preparing: "list_all preparing (handler_prints e)"
  by (cases e) (simp_all add: handler_prints_def)

lemma compile_to_exe_cases [consumes 1, case_names early failed succeeded]:
  assumes "compile_to_exe env p od h = (r, h')"
  obtains (early) evs where "r = Inr False" "h' = h @ evs" "list_all preparing evs"
    | (failed) pre a e where "list_all preparing pre"
        "fst (analyze_dependencies env p []) = Inr a"
        "check_call (run_packager env (h @ pre) (command_for p od a)) = Some e"
        "r = Inr False"
        "h' = h @ pre @ RunPackager (command_for p od a) # handler_prints e"
    | (succeeded) pre a cl where "list_all preparing pre"
        "fst (analyze_dependencies env p []) = Inr a"
        "check_call (run_packager env (h @ pre) (command_for p od a)) = None"
        "r = Inr True"
        "list_all (cleaning (output_dir_of p od) (script_name_of p)) cl"
        "h' = h @ pre @ RunPackager (command_for p od a) # Print CompilationCompleted # cl"
        "h' = cleanup_temp_files env (output_dir_of p od) (script_name_of p)
                (h @ pre @ [RunPackager (command_for p od a), Print CompilationCompleted])"
proof -
  obtain r0 h0 where ct: "compile_try env p od h = (r0, h0)"
    by fastforce
  from compile_try_shape [OF ct]
  consider (a) "grows preparing h h0" "r0 \<noteq> Inr True"
    | (b) pre a e where "list_all preparing pre" "fst (analyze_dependencies env p []) = Inr a"
        "check_call (run_packager env (h @ pre) (command_for p od a)) = Some e" "r0 = Inl e"
        "h0 = h @ pre @ [RunPackager (command_for p od a)]"
    | (c) pre a where "list_all preparing pre" "fst (analyze_dependencies env p []) = Inr a"
        "check_call (run_packager env (h @ pre) (command_for p od a)) = None" "r0 = Inr True"
        "h0 = cleanup_temp_files env (output_dir_of p od) (script_name_of p)
                (h @ pre @ [RunPackager (command_for p od a), Print CompilationCompleted])"
    unfolding command_for_def by blast
  then show thesis
  proof cases
    case a
    show thesis
    proof (cases r0)
      case (Inl e)
      have "grows preparing h (h0 @ handler_prints e)"
        using a(1) handler_prints_preparing by (rule grows_step)
      then obtain evs where "h0 @ handler_prints e = h @ evs" "list_all preparing evs"
        by (auto simp: grows_def)
      moreover have "r = Inr False" "h' = h0 @ handler_prints e"
        using assms ct Inl by (simp_all add: compile_to_exe_handlers)
      ultimately show thesis using early by simp
    next
      case (Inr b)
      then have "r = Inr False" "h' = h0"
        using assms ct a(2) by (auto simp: compile_to_exe_handlers)
      moreover obtain evs where "h0 = h @ evs" "list_all preparing evs"
        using a(1) by (auto simp: grows_def)
      ultimately show thesis using early by simp
    qed
  next
    case b
    then have "r = Inr False" "h' = h @ pre @ RunPackager (command_for p od a) # handler_prints e"
      using assms ct by (simp_all add: compile_to_exe_handlers)
    then show thesis using failed b(1-3) by blast
  next
    case c
    obtain cl where cl: "h0 = (h @ pre @ [RunPackager (command_for p od a), Print CompilationCompleted]) @ cl"
      "list_all (cleaning (output_dir_of p od) (script_name_of p)) cl"
      using cleanup_temp_files_grows [of "output_dir_of p od" "script_name_of p"
          "h @ pre @ [RunPackager (command_for p od a), Print CompilationCompleted]" env] c(5)
      by (auto simp: grows_def)
    have r: "r = Inr True" "h' = h0"
      using assms ct c by (simp_all add: compile_to_exe_handlers)
    have "h' = h @ pre @ RunPackager (command_for p od a) # Print CompilationCompleted # cl"
      using r cl by simp
    then show thesis using succeeded c(1-3) r cl(2) c(5) by blast
  qed
qed






lemma preparing_facts:
  "list_all preparing evs \<Longrightarrow>
     \<not> list_ex removal evs \<and> \<not> list_ex packaging evs \<and> RunPackager cmd \<notin> set evs \<and>
     Print (CleanupWarning e) \<notin> set evs"
  by (induction evs) (auto elim: removal.elims packaging.elims)




lemma handler_prints_facts:
  "RunPackager cmd \<notin> set (handler_prints e) \<and> \<not> list_ex removal (handler_prints e) \<and>
   Print (CleanupWarning x) \<notin> set (handler_prints e)"
  by (cases e) (simp_all add: handler_prints_def)

lemma cleaning_no_run: "list_all (cleaning out name) evs \<Longrightarrow> RunPackager cmd \<notin> set evs"
  by (auto simp: list_all_iff cleaning_def)

lemma analyze_fst_indep:
  "fst (analyze_dependencies env p h) = fst (analyze_dependencies env p h0)"
  using analyze_dependencies_shape [of env p h h0]
  by (cases "find_local_modules env p") auto

lemma analyze_distinct_external:
  assumes "fst (analyze_dependencies env p h) = Inr a"
  shows "distinct (external_imports a)"
proof (cases "find_local_modules env p")
  case (Inl e)
  then show ?thesis using analyze_dependencies_shape [of env p h h] assms by simp
next
  case (Inr ms)
  then obtain a' where "fst (analyze_dependencies env p h) = Inr a'" "distinct (all_imports a')"
    "external_imports a' = filter (\<lambda>imp. imp \<notin> set stdlib_modules) (all_imports a')"
    using analyze_dependencies_shape [of env p h h] by blast
  then show ?thesis using assms by simp
qed


lemma quiet_no_prompt: "list_all quiet evs \<Longrightarrow> Prompt \<notin> set evs"
  by (induction evs) auto

lemma quiet_no_needed: "list_all quiet evs \<Longrightarrow> Print (PackagesNeeded m) \<notin> set evs"
  by (induction evs) auto

lemma install_no_prompt: "list_all install_event evs \<Longrightarrow> Prompt \<notin> set evs"
  by (induction evs) auto

lemma install_no_needed: "list_all install_event evs \<Longrightarrow> Print (PackagesNeeded m) \<notin> set evs"
  by (induction evs) auto

lemma banner_facts:
  "pip_attempts (banner m) = []" "pip_successes (banner m) = []" "Prompt \<notin> set (banner m)"
  "Print (PackagesNeeded x) \<in> set (banner m) \<longleftrightarrow> x = m"
  by (auto simp: banner_def)

lemma report_facts:
  "pip_attempts (report m inst) = []" "pip_successes (report m inst) = []"
  "Prompt \<notin> set (report m inst)" "Print (PackagesNeeded x) \<notin> set (report m inst)"
  by (simp_all add: report_def)

lemma takeWhile_prompt:
  "Prompt \<notin> set xs \<Longrightarrow> takeWhile (\<lambda>e. e \<noteq> Prompt) (xs @ Prompt # ys) = xs"
  by (induction xs) auto

lemma ensure_project_missing_cases [consumes 2, case_names declined installed]:
  assumes "ensure_project_dependencies env p h = (r, h')"
    and "Print (PackagesNeeded m) \<in> set (added h h')"
  obtains (declined) pre tail where "list_all quiet pre" "m \<noteq> []" "length (argv env) = 1"
      "\<not> accepts (input_reply env (h @ pre @ banner m))" "r = Inr False"
      "added h h' = pre @ banner m @ Prompt # tail" "tail = [] \<or> tail = [Print DepsNotInstalled]"
    | (installed) pre prompt inst where "list_all quiet pre" "m \<noteq> []" "r = Inr True"
      "added h h' = pre @ banner m @ prompt @ inst @ report m inst"
      "list_all install_event inst" "pip_attempts inst = m"
      "(length (argv env) = 1 \<and> accepts (input_reply env (h @ pre @ banner m)) \<and> prompt = [Prompt]) \<or>
       (length (argv env) \<noteq> 1 \<and> prompt = [])"
proof -
  from ensure_project_shape [OF assms(1)]
  consider (q) "grows quiet h h'"
    | (i) pre m0 where "list_all quiet pre" "m0 \<noteq> []" "install_missing env m0 (h @ pre) = (r, h')"
    by blast
  then show thesis
  proof cases
    case q
    then have "list_all quiet (added h h')"
      using grows_added by blast
    then show thesis using assms(2) quiet_no_needed by blast
  next
    case (i pre m0)
    from install_missing_shape [OF i(3)]
    consider (go) prompt inst where
        "h' = (h @ pre) @ banner m0 @ prompt @ inst @ report m0 inst" "r = Inr True"
        "list_all install_event inst" "pip_attempts inst = m0"
        "(length (argv env) = 1 \<and> accepts (input_reply env ((h @ pre) @ banner m0)) \<and> prompt = [Prompt]) \<or>
         (length (argv env) \<noteq> 1 \<and> prompt = [])"
      | (no) "length (argv env) = 1" "\<not> accepts (input_reply env ((h @ pre) @ banner m0))"
        "r = Inr False"
        "h' = (h @ pre) @ banner m0 @ [Prompt] \<or> h' = (h @ pre) @ banner m0 @ [Prompt, Print DepsNotInstalled]"
      by blast
    then show thesis
    proof cases
      case go
      have ad: "added h h' = pre @ banner m0 @ prompt @ inst @ report m0 inst"
        using go(1) by (simp add: added_def)
      have "Print (PackagesNeeded m) \<notin> set prompt"
        using go(5) by auto
      then have "m = m0"
        using assms(2) ad quiet_no_needed [OF i(1)] install_no_needed [OF go(3)]
          banner_facts(4) [of m m0] report_facts(4) [of m m0 inst] by auto
      then show thesis
        using installed [of pre prompt inst] i(1,2) go ad by simp
    next
      case no
      then obtain tail where t: "h' = (h @ pre) @ banner m0 @ Prompt # tail"
        "tail = [] \<or> tail = [Print DepsNotInstalled]" by auto
      have ad: "added h h' = pre @ banner m0 @ Prompt # tail"
        using t(1) by (simp add: added_def)
      have "m = m0"
        using assms(2) ad quiet_no_needed [OF i(1)] banner_facts(4) [of m m0] t(2) by auto
      then show thesis
        using declined [of pre tail] i(1,2) no(1-3) ad t(2) by simp
    qed
  qed
qed

lemma compile_aborts:
  assumes "ensure_compiler_dependencies env h0 = (Inr True, h)"
    and "ensure_project_dependencies env p h = (Inr False, h')"
  shows "compile_to_exe env p od h0 = (Inr False, h') \<and> \<not> list_ex packaging (added h0 h')"
proof -
  have "compile_try env p od h0 = (Inr False, h')"
    using assms by (simp add: compile_try_def)
  then have c: "compile_to_exe env p od h0 = (Inr False, h')"
    by (simp add: compile_to_exe_handlers)
  have "grows preparing h0 h"
    using ensure_compiler_dependencies_grows [of h0 env] assms(1) by simp
  moreover have "grows preparing h h'"
    using ensure_project_dependencies_grows [of h env p] assms(2) by simp
  ultimately have "grows preparing h0 h'"
    by (rule grows_trans)
  then have "list_all preparing (added h0 h')"
    using grows_added by blast
  then show ?thesis using c preparing_facts by blast
qed

lemma added_Nil: "added [] h = h"
  by (simp add: added_def)


lemma run_interactive_compiler:
  "ensure_compiler_dependencies (interactive (Line ''n'')) [] = (Inr True, [ImportProbe ''pyinstaller''])"
  by code_simp

lemma run_interactive_project:
  "ensure_project_dependencies (interactive (Line ''n'')) ''proj/app.py'' [ImportProbe ''pyinstaller''] =
     (Inr False,
      [ImportProbe ''pyinstaller'', Print (FoundPackages 3), Print (FoundPackages 3),
       ImportProbe ''flask'', ImportProbe ''requests'', ImportProbe ''click'', Print Rule,
       Print ProjectDepsRequired, Print Rule,
       Print (PackagesNeeded [''flask'', ''requests'', ''click'']),
       Print WillAutoInstall, Prompt, Print DepsNotInstalled])"
  by code_simp

lemma run_cleanup_fails:
  "compile_to_exe cleanup_fails ''proj/app.py'' None [] =
     (Inr True,
      [ImportProbe ''pyinstaller'', Print (FoundPackages 3), Print (FoundPackages 3),
       ImportProbe ''flask'', ImportProbe ''requests'', ImportProbe ''click'', Print Rule,
       Print ProjectDepsRequired, Print Rule,
       Print (PackagesNeeded [''flask'', ''requests'', ''click'']),
       Print WillAutoInstall, Print (Installing ''flask''), PipInstall ''flask'',
       Print (InstalledOk ''flask''), Print (Installing ''requests''), PipInstall ''requests'',
       Print (InstalledOk ''requests''), Print (Installing ''click''), PipInstall ''click'',
       Print (InstalledOk ''click''), Print AllDepsInstalled, Print Analyzing,
       Print (Compiling ''proj/app.py''), Print (DetectedLocal [''util.py'']),
       Print (DetectedExternal [''requests'', ''numpy'']),
       Print (Command
         [''pyinstaller'', ''--onefile'', ''--console'', ''--distpath'', ''proj'',
          ''--workpath'', ''proj/build'', ''--specpath'', ''proj'', ''--name'', ''app'',
          ''--clean'', ''--hidden-import'', ''requests'', ''--hidden-import'', ''numpy'',
          ''proj/app.py'']),
       RunPackager
         [''pyinstaller'', ''--onefile'', ''--console'', ''--distpath'', ''proj'',
          ''--workpath'', ''proj/build'', ''--specpath'', ''proj'', ''--name'', ''app'',
          ''--clean'', ''--hidden-import'', ''requests'', ''--hidden-import'', ''numpy'',
          ''proj/app.py''],
       Print CompilationCompleted, Remove ''proj/app.spec'',
       Print (CleanupWarning (OtherException ''busy''))])"
  by code_simp


text \<open>Facts about the program on a console that may refuse a message.\<close>

lemma emit_ok: "prints_all out \<Longrightarrow> emit out m h = (None, h @ [Print m])"
  by (simp add: emit_def prints_all_def)











lemma extract_imports_io_eq:
  assumes p: "prints_all out"
  shows "extract_imports_io out env p h = extract_imports env p h"
  using p
  by (simp add: extract_imports_io_def extract_imports_def emit_ok [OF p] del: emit_all.simps split: sum.splits)





























section \<open>The claims\<close>




text \<open>
  Claim C2 (the packages probed and installed exclude the packaging tool's own name): the code
  filters the name out of the first parse of the manifest and then parses the manifest again,
  so the filtered list is dropped. On the manifest with the two lines \<^verbatim>\<open>PyInstaller\<close> and
  \<^verbatim>\<open>flask\<close>, with nothing importable, the run probes \<^verbatim>\<open>pyinstaller\<close>, announces
  \<^verbatim>\<open>PyInstaller\<close> as a missing project dependency and installs it.
\<close>

theorem packaging_tool_probed_and_installed:
  "ensure_project_dependencies tool_in_manifest ''proj/app.py'' [] =
     (Inr True,
      [Print (FoundPackages 2), Print (FoundPackages 2),
       ImportProbe ''pyinstaller'', ImportProbe ''flask'', Print Rule,
       Print ProjectDepsRequired, Print Rule,
       Print (PackagesNeeded [''PyInstaller'', ''flask'']),
       Print WillAutoInstall, Print (Installing ''PyInstaller''),
       PipInstall ''PyInstaller'', Print (InstalledOk ''PyInstaller''),
       Print (Installing ''flask''), PipInstall ''flask'',
       Print (InstalledOk ''flask''), Print AllDepsInstalled])"
  by code_simp

text \<open>
  Claim C3: \<^verbatim>\<open>analyze_dependencies\<close> returns a result whenever the directory of the entry
  point can be listed, and every result satisfies: the main imports are the imports of the
  entry point, the local modules are those \<^verbatim>\<open>find_local_modules\<close> discovers, all imports are
  the union of the imports of the entry point and of every local module, and the external
  imports are all imports minus the twelve names of the allowlist, hence a subset of all
  imports.
\<close>

theorem analyze_dependencies_sets:
  "(\<forall>files. listdir env (dirname p) = Inr files \<longrightarrow>
      (\<exists>a h'. analyze_dependencies env p h = (Inr a, h'))) \<and>
   (\<forall>a h'. analyze_dependencies env p h = (Inr a, h') \<longrightarrow>
      set (main_imports a) = imports_of env p \<and>
      find_local_modules env p = Inr (local_modules a) \<and>
      set (all_imports a) = imports_of env p \<union> (\<Union>m\<in>set (local_modules a). imports_of env m) \<and>
      set (external_imports a) =
        set (all_imports a) - {''os'', ''sys'', ''math'', ''json'', ''datetime'', ''time'', ''re'',
          ''random'', ''pathlib'', ''collections'', ''itertools'', ''functools''} \<and>
      set (external_imports a) \<subseteq> set (all_imports a))"
proof (intro conjI allI impI)
  fix files
  assume "listdir env (dirname p) = Inr files"
  then obtain ms where "find_local_modules env p = Inr ms"
    by (auto simp: find_local_modules_def Let_def)
  then obtain a where "fst (analyze_dependencies env p h) = Inr a"
    using analyze_dependencies_shape [of env p h h] by blast
  then show "\<exists>a h'. analyze_dependencies env p h = (Inr a, h')"
    by (cases "analyze_dependencies env p h") auto
next
  fix a h'
  assume r: "analyze_dependencies env p h = (Inr a, h')"
  have "\<exists>ms. find_local_modules env p = Inr ms"
    using analyze_dependencies_shape [of env p h h] r
    by (cases "find_local_modules env p") auto
  then obtain ms where ms: "find_local_modules env p = Inr ms"
    by blast
  then have f: "set (main_imports a) = imports_of env p" "local_modules a = ms"
    "set (all_imports a) = imports_of env p \<union> \<Union> (imports_of env ` set ms)"
    "external_imports a = filter (\<lambda>imp. imp \<notin> set stdlib_modules) (all_imports a)"
    using analyze_dependencies_shape [of env p h h] r by auto
  show "set (main_imports a) = imports_of env p"
    by (rule f(1))
  show "find_local_modules env p = Inr (local_modules a)"
    using ms f(2) by simp
  show "set (all_imports a) = imports_of env p \<union> (\<Union>m\<in>set (local_modules a). imports_of env m)"
    using f(2,3) by simp
  show "set (external_imports a) =
        set (all_imports a) - {''os'', ''sys'', ''math'', ''json'', ''datetime'', ''time'', ''re'',
          ''random'', ''pathlib'', ''collections'', ''itertools'', ''functools''}"
    unfolding f(4) by (auto simp: stdlib_modules_def)
  show "set (external_imports a) \<subseteq> set (all_imports a)"
    unfolding f(4) by auto
qed

text \<open>
  C3, the instance of the specification: an entry point importing os, json and requests and
  one local module importing numpy give the external imports requests and numpy.
\<close>

theorem analyze_dependencies_sets_witness:
  "listdir sample (dirname ''proj/app.py'') = Inr [''app.py'', ''util.py'', ''requirements.txt''] \<and>
   (\<exists>a h'. analyze_dependencies sample ''proj/app.py'' [] = (Inr a, h') \<and>
      local_modules a = [''proj/util.py''] \<and>
      set (main_imports a) = {''os'', ''json'', ''requests''} \<and>
      set (all_imports a) = {''os'', ''json'', ''requests'', ''numpy''} \<and>
      set (external_imports a) = {''requests'', ''numpy''})"
proof -
  let ?a = "\<lparr> main_imports = [''os'', ''json'', ''requests''],
              local_modules = [''proj/util.py''],
              all_imports = [''os'', ''json'', ''requests'', ''numpy''],
              external_imports = [''requests'', ''numpy''],
              local_module_names = [''util.py''] \<rparr>"
  have l: "listdir sample (dirname ''proj/app.py'') = Inr [''app.py'', ''util.py'', ''requirements.txt'']"
    by code_simp
  have r: "analyze_dependencies sample ''proj/app.py'' [] = (Inr ?a, [])"
    by code_simp
  note t = analyze_dependencies_sets [of sample "''proj/app.py''" "[]", THEN conjunct2,
      rule_format, OF r]
  have "set (external_imports ?a) \<subseteq> set (all_imports ?a)"
    using t by (elim conjE)
  then have "set (external_imports ?a) = {''requests'', ''numpy''}"
    by simp
  then show ?thesis using l r by simp
qed

text \<open>
  Claim C4, as stated, fails on the manifest with the two lines \<^verbatim>\<open>requests<=3.0,>=2.0\<close> and
  \<^verbatim>\<open>a<==1\<close>: the code returns \<^verbatim>\<open>requests\<close> and \<^verbatim>\<open>a<\<close>; cutting at the first operator of
  the priority list that occurs gives \<^verbatim>\<open>requests<=3.0,\<close> for the first line, and cutting at
  the leftmost occurrence of any operator gives \<^verbatim>\<open>a\<close> for the second.
\<close>

theorem first_match_wins_counterexample:
  "fst (parse_requirements_file (with_manifest two_operators None) ''proj/requirements.txt'' [])
     = Inr [''requests'', ''a<''] \<and>
   requirement_names spec_cut_priority two_operators = [''requests<=3.0,'', ''a<''] \<and>
   requirement_names spec_cut_leftmost two_operators = [''requests'', ''a''] \<and>
   fst (parse_requirements_file (with_manifest two_operators None) ''proj/requirements.txt'' [])
     \<noteq> Inr (requirement_names spec_cut_priority two_operators) \<and>
   fst (parse_requirements_file (with_manifest two_operators None) ''proj/requirements.txt'' [])
     \<noteq> Inr (requirement_names spec_cut_leftmost two_operators)"
  by code_simp

text \<open>
  Claim C4, amended: for a manifest that exists and is read to its end,
  \<^verbatim>\<open>parse_requirements_file\<close> skips the lines that are empty after trimming or start with
  \<^verbatim>\<open>#\<close> or \<^verbatim>\<open>-\<close>; each remaining trimmed line is cut before its first \<^verbatim>\<open>>=\<close>, what is left
  is cut before its first \<^verbatim>\<open>==\<close>, and what is left of that is cut before its first \<^verbatim>\<open><=\<close>
  (all three cuts are applied, in this order); the result is trimmed and dropped when empty.
  The order of the lines is kept. (\<open>before\<close> is pinned down by \<open>before_prefix\<close>,
  \<open>before_stops\<close> and \<open>before_first\<close>, and it is the first field of the split by
  \<open>hd_py_split\<close>.)
\<close>

theorem parse_requirements_chained_cuts:
  assumes "path_exists env h p" and "open_lines env p = (ls, None)"
  shows "fst (parse_requirements_file env p h) =
    Inr (filter (\<lambda>name. name \<noteq> [])
           (map (\<lambda>l. py_strip (before ''<='' (before ''=='' (before ''>='' (py_strip l)))))
              (filter (\<lambda>l. \<not> (py_strip l = [] \<or> py_startswith (py_strip l) ''#'' \<or>
                               py_startswith (py_strip l) ''-'')) ls)))"
proof -
  have "fst (parse_requirements_file env p h) = Inr (requirement_names chained_cut ls)"
    using assms
    by (simp add: parse_requirements_file_def parse_requirements_try_def read_requirements_eq
        Let_def)
  then show ?thesis
    by (simp only: requirement_names_def chained_cut_def skipped_def)
qed

text \<open>
  C4, the instance of the specification: the six-line manifest gives flask, requests and
  click, in this order.
\<close>

theorem parse_requirements_chained_cuts_witness:
  "path_exists sample [] ''proj/requirements.txt'' \<and>
   open_lines sample ''proj/requirements.txt'' =
     ([''# comment'', [], ''flask>=2.0'', ''requests==2.31.0'', ''-e .'', ''click''], None) \<and>
   fst (parse_requirements_file sample ''proj/requirements.txt'' [])
     = Inr [''flask'', ''requests'', ''click'']"
proof -
  have e: "path_exists sample [] ''proj/requirements.txt''"
    by code_simp
  have o: "open_lines sample ''proj/requirements.txt'' =
     ([''# comment'', [], ''flask>=2.0'', ''requests==2.31.0'', ''-e .'', ''click''], None)"
    by code_simp
  have v: "filter (\<lambda>name. name \<noteq> [])
            (map (\<lambda>l. py_strip (before ''<='' (before ''=='' (before ''>='' (py_strip l)))))
               (filter (\<lambda>l. \<not> (py_strip l = [] \<or> py_startswith (py_strip l) ''#'' \<or>
                                py_startswith (py_strip l) ''-''))
                  [''# comment'', [], ''flask>=2.0'', ''requests==2.31.0'', ''-e .'', ''click'']))
          = [''flask'', ''requests'', ''click'']"
    by code_simp
  note r = parse_requirements_chained_cuts [OF e o, unfolded v]
  show ?thesis
    by (intro conjI) (fact e, fact o, fact r)
qed




text \<open>
  Claim C6, as stated, fails on a standard output with the ASCII encoding: for a file that
  cannot be opened and whose name has a character outside ASCII, printing the warning, which
  contains the path, raises inside the handler, to the caller.
\<close>

theorem unprintable_warning_counterexample:
  "parse_source sample accented = Inl (FileNotFoundError accented) \<and>
   extract_imports_io ascii_console sample accented []
     = (Inl (OtherException ''UnicodeEncodeError''), [])"
  by code_simp

text \<open>
  Claim C6, amended: \<^verbatim>\<open>extract_imports\<close> raises to its caller only what printing its
  warning raises, and only after opening, reading or parsing the file failed. When that
  failure is \<open>e\<close> and the warning with the file path and \<open>e\<close> can be printed, it prints that
  one warning and returns the empty list. When the file parses to a tree (in which, as the
  parser guarantees, no from-import has an empty module name), it prints nothing and returns
  a duplicate-free list whose elements are the names of all import statements of the tree and
  the module names of all from-import statements whose module is not \<^verbatim>\<open>None\<close>. On a console
  that prints every message it never raises, and is the function \<open>extract_imports\<close> of the
  first sections.
\<close>

theorem extract_imports_raises_only_its_warning:
  "(\<forall>e'. fst (extract_imports_io out env p h) = Inl e' \<longrightarrow>
      (\<exists>e. parse_source env p = Inl e \<and> out h (ParseWarning p e) = Some e')) \<and>
   (\<forall>e. parse_source env p = Inl e \<and> out h (ParseWarning p e) = None \<longrightarrow>
      extract_imports_io out env p h = (Inr [], h @ [Print (ParseWarning p e)])) \<and>
   (\<forall>tree. parse_source env p = Inr tree \<and> ImportFrom (Some []) \<notin> subnodes tree \<longrightarrow>
      (\<exists>names. extract_imports_io out env p h = (Inr names, h) \<and> distinct names \<and>
         set names = {x. \<exists>xs. Import xs \<in> subnodes tree \<and> x \<in> set xs} \<union>
                     {m. ImportFrom (Some m) \<in> subnodes tree})) \<and>
   (prints_all out \<longrightarrow>
      extract_imports_io out env p h = extract_imports env p h \<and>
      (\<exists>names h'. extract_imports_io out env p h = (Inr names, h')))"
proof (intro conjI allI impI)
  fix e'
  assume "fst (extract_imports_io out env p h) = Inl e'"
  then show "\<exists>e. parse_source env p = Inl e \<and> out h (ParseWarning p e) = Some e'"
    by (auto simp: extract_imports_io_def extract_imports_try_def emit_def
        split: sum.splits option.splits)
next
  fix e
  assume "parse_source env p = Inl e \<and> out h (ParseWarning p e) = None"
  then show "extract_imports_io out env p h = (Inr [], h @ [Print (ParseWarning p e)])"
    by (simp add: extract_imports_io_def extract_imports_try_def emit_def)
next
  fix tree
  assume a: "parse_source env p = Inr tree \<and> ImportFrom (Some []) \<notin> subnodes tree"
  then obtain names where n: "extract_imports_try env p = Inr names" "distinct names"
    "set names = {x. \<exists>xs. Import xs \<in> subnodes tree \<and> x \<in> set xs} \<union>
                 {m. m \<noteq> [] \<and> ImportFrom (Some m) \<in> subnodes tree}"
    using extract_imports_try_ok [of env p tree] by blast
  have "{m. m \<noteq> [] \<and> ImportFrom (Some m) \<in> subnodes tree} = {m. ImportFrom (Some m) \<in> subnodes tree}"
    using a by auto
  then show "\<exists>names. extract_imports_io out env p h = (Inr names, h) \<and> distinct names \<and>
         set names = {x. \<exists>xs. Import xs \<in> subnodes tree \<and> x \<in> set xs} \<union>
                     {m. ImportFrom (Some m) \<in> subnodes tree}"
    using n by (simp add: extract_imports_io_def)
next
  assume p: "prints_all out"
  show "extract_imports_io out env p h = extract_imports env p h"
    by (rule extract_imports_io_eq [OF p])
  show "\<exists>names h'. extract_imports_io out env p h = (Inr names, h')"
    unfolding extract_imports_io_eq [OF p]
    by (auto simp: extract_imports_def split: sum.splits)
qed

text \<open>
  C6, three instances of the sample project on the ASCII console: the file with the accented
  name, where the exception is the one of the warning; a missing file whose warning can be
  printed; and the entry point.
\<close>

theorem extract_imports_raises_only_its_warning_witness:
  "fst (extract_imports_io ascii_console sample accented [])
     = Inl (OtherException ''UnicodeEncodeError'') \<and>
   (\<exists>e. parse_source sample accented = Inl e \<and>
      ascii_console [] (ParseWarning accented e) = Some (OtherException ''UnicodeEncodeError'')) \<and>
   parse_source sample ''proj/missing.py'' = Inl (FileNotFoundError ''proj/missing.py'') \<and>
   ascii_console [] (ParseWarning ''proj/missing.py'' (FileNotFoundError ''proj/missing.py''))
     = None \<and>
   extract_imports_io ascii_console sample ''proj/missing.py'' []
     = (Inr [], [] @ [Print (ParseWarning ''proj/missing.py'' (FileNotFoundError ''proj/missing.py''))]) \<and>
   parse_source sample ''proj/app.py''
     = Inr (Other [Import [''os''], Import [''json''], Import [''requests'']]) \<and>
   ImportFrom (Some []) \<notin> subnodes (Other [Import [''os''], Import [''json''], Import [''requests'']]) \<and>
   extract_imports_io ascii_console sample ''proj/app.py'' []
     = (Inr [''os'', ''json'', ''requests''], []) \<and>
   set [''os'', ''json'', ''requests''] =
     {x. \<exists>xs. Import xs \<in> subnodes (Other [Import [''os''], Import [''json''], Import [''requests'']])
            \<and> x \<in> set xs} \<union>
     {m. ImportFrom (Some m) \<in> subnodes (Other [Import [''os''], Import [''json''], Import [''requests'']])}"
proof -
  let ?tree = "Other [Import [''os''], Import [''json''], Import [''requests'']]"
  have r: "fst (extract_imports_io ascii_console sample accented [])
     = Inl (OtherException ''UnicodeEncodeError'')"
    by code_simp
  have f: "parse_source sample ''proj/missing.py'' = Inl (FileNotFoundError ''proj/missing.py'')"
    by code_simp
  have ok: "ascii_console [] (ParseWarning ''proj/missing.py'' (FileNotFoundError ''proj/missing.py''))
     = None"
    by code_simp
  have t: "parse_source sample ''proj/app.py'' = Inr ?tree"
    by code_simp
  have wf: "ImportFrom (Some []) \<notin> subnodes ?tree"
    by simp
  have ev: "extract_imports_io ascii_console sample ''proj/app.py'' []
     = (Inr [''os'', ''json'', ''requests''], [])"
    by code_simp
  note th0 = extract_imports_raises_only_its_warning [of ascii_console sample accented "[]"]
  note th1 = extract_imports_raises_only_its_warning
    [of ascii_console sample "''proj/missing.py''" "[]"]
  note th2 = extract_imports_raises_only_its_warning
    [of ascii_console sample "''proj/app.py''" "[]"]
  have 0: "\<exists>e. parse_source sample accented = Inl e \<and>
      ascii_console [] (ParseWarning accented e) = Some (OtherException ''UnicodeEncodeError'')"
    using th0 r by blast
  have 1: "extract_imports_io ascii_console sample ''proj/missing.py'' []
     = (Inr [], [] @ [Print (ParseWarning ''proj/missing.py'' (FileNotFoundError ''proj/missing.py''))])"
    using th1 f ok by blast
  obtain names where n: "extract_imports_io ascii_console sample ''proj/app.py'' [] = (Inr names, [])"
    "set names = {x. \<exists>xs. Import xs \<in> subnodes ?tree \<and> x \<in> set xs} \<union>
                     {m. ImportFrom (Some m) \<in> subnodes ?tree}"
    using th2 t wf by blast
  have "names = [''os'', ''json'', ''requests'']"
    using n(1) unfolding ev by (rule_tac sym) (simp only: prod.inject sum.inject)
  then have 2: "set [''os'', ''json'', ''requests''] =
     {x. \<exists>xs. Import xs \<in> subnodes ?tree \<and> x \<in> set xs} \<union>
     {m. ImportFrom (Some m) \<in> subnodes ?tree}"
    using n(2) by (simp only:)
  show ?thesis
    by (intro conjI) (fact r, fact 0, fact f, fact ok, fact 1, fact t, fact wf, fact ev, fact 2)
qed

text \<open>
  Claim C7: let a call of \<^verbatim>\<open>ensure_project_dependencies\<close> announce the missing packages
  \<open>m\<close>. When the program was started without arguments, it prompts exactly once, before any
  installation is started; if the answer, trimmed and in lower case, is \<^verbatim>\<open>y\<close>, \<^verbatim>\<open>yes\<close> or
  empty, every package of \<open>m\<close> is installed and the call succeeds; for any other answer, for
  the end of the input and for an interrupt, no installation is started and the call returns
  failure. When arguments were given, there is no prompt and every package of \<open>m\<close> is
  installed. Whenever the call returns failure inside \<^verbatim>\<open>compile_to_exe\<close>, the compilation
  returns failure without running the packaging command or removing anything.
\<close>

theorem consent_gate:
  assumes "ensure_project_dependencies env p h = (r, h')"
    and "Print (PackagesNeeded m) \<in> set (added h h')"
  shows "(length (argv env) = 1 \<longrightarrow>
            count_list (added h h') Prompt = 1 \<and>
            pip_attempts (takeWhile (\<lambda>e. e \<noteq> Prompt) (added h h')) = [] \<and>
            (accepts (prompt_reply env h (added h h')) \<longrightarrow>
               pip_attempts (added h h') = m \<and> r = Inr True) \<and>
            (\<not> accepts (prompt_reply env h (added h h')) \<longrightarrow>
               pip_attempts (added h h') = [] \<and> r = Inr False)) \<and>
         (length (argv env) \<noteq> 1 \<longrightarrow>
            Prompt \<notin> set (added h h') \<and> pip_attempts (added h h') = m \<and> r = Inr True) \<and>
         (r = Inr False \<longrightarrow>
            (\<forall>h0 od. ensure_compiler_dependencies env h0 = (Inr True, h) \<longrightarrow>
               compile_to_exe env p od h0 = (Inr False, h') \<and>
               \<not> list_ex packaging (added h0 h'))) \<and>
         accepts (Line []) \<and> \<not> accepts (Line ''n'') \<and> \<not> accepts EndOfInput \<and> \<not> accepts Interrupt"
proof -
  have acc: "accepts (Line []) \<and> \<not> accepts (Line ''n'') \<and> \<not> accepts EndOfInput \<and> \<not> accepts Interrupt"
    by (simp add: py_strip_def py_lower_def py_lower_char_def py_isspace_def upper_chars_def lower_chars_def)
  have abort: "r = Inr False \<longrightarrow>
            (\<forall>h0 od. ensure_compiler_dependencies env h0 = (Inr True, h) \<longrightarrow>
               compile_to_exe env p od h0 = (Inr False, h') \<and>
               \<not> list_ex packaging (added h0 h'))"
    using compile_aborts assms(1) by blast
  from assms have "(length (argv env) = 1 \<longrightarrow>
            count_list (added h h') Prompt = 1 \<and>
            pip_attempts (takeWhile (\<lambda>e. e \<noteq> Prompt) (added h h')) = [] \<and>
            (accepts (prompt_reply env h (added h h')) \<longrightarrow>
               pip_attempts (added h h') = m \<and> r = Inr True) \<and>
            (\<not> accepts (prompt_reply env h (added h h')) \<longrightarrow>
               pip_attempts (added h h') = [] \<and> r = Inr False)) \<and>
         (length (argv env) \<noteq> 1 \<longrightarrow>
            Prompt \<notin> set (added h h') \<and> pip_attempts (added h h') = m \<and> r = Inr True)"
  proof (cases rule: ensure_project_missing_cases)
    case (declined pre tail)
    have np: "Prompt \<notin> set (pre @ banner m)"
      using quiet_no_prompt [OF declined(1)] banner_facts(3) by simp
    have ad: "added h h' = (pre @ banner m) @ Prompt # tail"
      using declined(6) by simp
    have tw: "takeWhile (\<lambda>e. e \<noteq> Prompt) (added h h') = pre @ banner m"
      unfolding ad using np by (rule takeWhile_prompt)
    have reply: "\<not> accepts (prompt_reply env h (added h h'))"
      using declined(4) tw by (simp add: prompt_reply_def)
    have cnt: "count_list (added h h') Prompt = 1"
      using ad np declined(7) by auto
    have pa: "pip_attempts (added h h') = []" "pip_attempts (pre @ banner m) = []"
      using ad declined(7) quiet_no_pip [OF declined(1)] banner_facts(1) [of m]
      by (auto simp: pip_attempts_append)
    show ?thesis
      using declined(3,5) tw reply cnt pa by simp
  next
    case (installed pre prompt inst)
    have pa: "pip_attempts (added h h') = m"
      using installed(4,6,7) quiet_no_pip [OF installed(1)] banner_facts(1) [of m]
        report_facts(1) [of m inst]
      by (auto simp: pip_attempts_append)
    have np: "Prompt \<notin> set (pre @ banner m)" "Prompt \<notin> set (inst @ report m inst)"
      using quiet_no_prompt [OF installed(1)] banner_facts(3) install_no_prompt [OF installed(5)]
        report_facts(3) by simp_all
    from installed(7) show ?thesis
    proof
      assume a: "length (argv env) = 1 \<and> accepts (input_reply env (h @ pre @ banner m)) \<and> prompt = [Prompt]"
      have ad: "added h h' = (pre @ banner m) @ Prompt # (inst @ report m inst)"
        using installed(4) a by simp
      have tw: "takeWhile (\<lambda>e. e \<noteq> Prompt) (added h h') = pre @ banner m"
        unfolding ad using np(1) by (rule takeWhile_prompt)
      have reply: "accepts (prompt_reply env h (added h h'))"
        using a tw by (simp add: prompt_reply_def)
      have cnt: "count_list (added h h') Prompt = 1"
        using ad np by auto
      have "pip_attempts (pre @ banner m) = []"
        using quiet_no_pip [OF installed(1)] banner_facts(1) [of m] by (simp add: pip_attempts_append)
      then show ?thesis
        using a installed(3) tw reply cnt pa by simp
    next
      assume a: "length (argv env) \<noteq> 1 \<and> prompt = []"
      have "Prompt \<notin> set (added h h')"
        using installed(4) a np by auto
      then show ?thesis
        using a installed(3) pa by simp
    qed
  qed
  then show ?thesis using abort acc by blast
qed

text \<open>C7, an instance: the sample project started without arguments, the answer being n.\<close>

theorem consent_gate_witness:
  "ensure_compiler_dependencies (interactive (Line ''n'')) [] = (Inr True, [ImportProbe ''pyinstaller'']) \<and>
   Print (PackagesNeeded [''flask'', ''requests'', ''click''])
     \<in> set (added [ImportProbe ''pyinstaller'']
          (snd (ensure_project_dependencies (interactive (Line ''n'')) ''proj/app.py''
                 [ImportProbe ''pyinstaller'']))) \<and>
   length (argv (interactive (Line ''n''))) = 1 \<and>
   fst (ensure_project_dependencies (interactive (Line ''n'')) ''proj/app.py''
          [ImportProbe ''pyinstaller'']) = Inr False \<and>
   pip_attempts (added [ImportProbe ''pyinstaller'']
          (snd (ensure_project_dependencies (interactive (Line ''n'')) ''proj/app.py''
                 [ImportProbe ''pyinstaller'']))) = [] \<and>
   fst (compile_to_exe (interactive (Line ''n'')) ''proj/app.py'' None []) = Inr False \<and>
   \<not> list_ex packaging (snd (compile_to_exe (interactive (Line ''n'')) ''proj/app.py'' None []))"
proof -
  let ?env = "interactive (Line ''n'')"
  let ?h = "[ImportProbe ''pyinstaller'']"
  let ?run = "ensure_project_dependencies ?env ''proj/app.py'' ?h"
  note c = run_interactive_compiler
  have run: "?run = (fst ?run, snd ?run)"
    by simp
  have missing: "Print (PackagesNeeded [''flask'', ''requests'', ''click''])
     \<in> set (added ?h (snd ?run))"
    by (simp add: run_interactive_project added_def)
  have args: "length (argv ?env) = 1"
    by (simp add: interactive_def)
  have "\<not> accepts (Line ''n'')"
    by (simp add: py_strip_def py_lower_def py_lower_char_def py_isspace_def upper_chars_def
        lower_chars_def)
  then have reply: "\<not> accepts (prompt_reply ?env ?h (added ?h (snd ?run)))"
    by (simp add: prompt_reply_def interactive_def)
  note g = consent_gate [OF run missing]
  have 1: "pip_attempts (added ?h (snd ?run)) = []" "fst ?run = Inr False"
    using g args reply by blast+
  then have "compile_to_exe ?env ''proj/app.py'' None [] = (Inr False, snd ?run) \<and>
               \<not> list_ex packaging (added [] (snd ?run))"
    using g c by blast
  then show ?thesis using c missing args 1 by (simp add: added_Nil)
qed

text \<open>
  Claim C8: every packaging command that \<^verbatim>\<open>compile_to_exe\<close> runs consists of, in this order,
  the name of the tool, the single-file flag, the console flag, the distribution, work and
  specification directories (the output directory, its \<^verbatim>\<open>build\<close> subdirectory, the output
  directory), the name option with the base name of the script without its extension, the
  clean flag, one hidden-import flag followed by the module for each external import of the
  analysis (a duplicate-free list), and the script path as last argument. The output directory
  is the one given, or the directory of the script when none is given.
\<close>

theorem packaging_command:
  assumes "compile_to_exe env p od h = (r, h')"
    and "RunPackager cmd \<in> set (added h h')"
  shows "\<exists>a. (\<forall>h0. fst (analyze_dependencies env p h0) = Inr a) \<and>
           distinct (external_imports a) \<and>
           cmd = [''pyinstaller'', ''--onefile'', ''--console'',
                  ''--distpath'', output_dir_of p od,
                  ''--workpath'', path_join (output_dir_of p od) ''build'',
                  ''--specpath'', output_dir_of p od,
                  ''--name'', fst (splitext (basename p)),
                  ''--clean'']
                 @ concat (map (\<lambda>i. [''--hidden-import'', i]) (external_imports a))
                 @ [p]"
proof -
  have "\<exists>a. fst (analyze_dependencies env p []) = Inr a \<and> cmd = command_for p od a"
    using assms(1)
  proof (cases rule: compile_to_exe_cases)
    case (early evs)
    then show ?thesis using assms(2) preparing_facts [of evs cmd] by (simp add: added_def)
  next
    case (failed pre a e)
    then show ?thesis
      using assms(2) preparing_facts [of pre cmd] handler_prints_facts [of cmd e]
      by (auto simp: added_def)
  next
    case (succeeded pre a cl)
    then show ?thesis
      using assms(2) preparing_facts [of pre cmd] cleaning_no_run [of _ _ cl cmd]
      by (auto simp: added_def)
  qed
  then obtain a where a: "fst (analyze_dependencies env p []) = Inr a" "cmd = command_for p od a"
    by blast
  have "\<forall>h0. fst (analyze_dependencies env p h0) = Inr a"
    using a(1) analyze_fst_indep [of env p _ "[]"] by simp
  moreover have "distinct (external_imports a)"
    using a(1) by (rule analyze_distinct_external)
  ultimately show ?thesis
    using a(2) by (auto simp: command_for_def build_command_eq script_name_of_def)
qed

text \<open>C8, an instance: the command of the sample project.\<close>

theorem packaging_command_witness:
  "RunPackager
     [''pyinstaller'', ''--onefile'', ''--console'', ''--distpath'', ''proj'',
      ''--workpath'', ''proj/build'', ''--specpath'', ''proj'', ''--name'', ''app'', ''--clean'',
      ''--hidden-import'', ''requests'', ''--hidden-import'', ''numpy'', ''proj/app.py'']
     \<in> set (added [] (snd (compile_to_exe cleanup_fails ''proj/app.py'' None []))) \<and>
   (\<exists>a. fst (analyze_dependencies cleanup_fails ''proj/app.py'' []) = Inr a \<and>
      concat (map (\<lambda>i. [''--hidden-import'', i]) (external_imports a))
        = [''--hidden-import'', ''requests'', ''--hidden-import'', ''numpy''])"
proof -
  let ?cmd = "[''pyinstaller'', ''--onefile'', ''--console'', ''--distpath'', ''proj'',
      ''--workpath'', ''proj/build'', ''--specpath'', ''proj'', ''--name'', ''app'', ''--clean'',
      ''--hidden-import'', ''requests'', ''--hidden-import'', ''numpy'', ''proj/app.py'']"
  let ?run = "compile_to_exe cleanup_fails ''proj/app.py'' None []"
  have run: "?run = (fst ?run, snd ?run)"
    by simp
  have ev: "RunPackager ?cmd \<in> set (added [] (snd ?run))"
    by (simp add: run_cleanup_fails added_Nil)
  obtain a where a: "\<forall>h0. fst (analyze_dependencies cleanup_fails ''proj/app.py'' h0) = Inr a"
    "?cmd = [''pyinstaller'', ''--onefile'', ''--console'',
             ''--distpath'', output_dir_of ''proj/app.py'' None,
             ''--workpath'', path_join (output_dir_of ''proj/app.py'' None) ''build'',
             ''--specpath'', output_dir_of ''proj/app.py'' None,
             ''--name'', fst (splitext (basename ''proj/app.py'')),
             ''--clean'']
            @ concat (map (\<lambda>i. [''--hidden-import'', i]) (external_imports a))
            @ [''proj/app.py'']"
    using packaging_command [OF run ev] by blast
  have "concat (map (\<lambda>i. [''--hidden-import'', i]) (external_imports a))
        = [''--hidden-import'', ''requests'', ''--hidden-import'', ''numpy'']"
    using a(2) by simp
  moreover have "fst (analyze_dependencies cleanup_fails ''proj/app.py'' []) = Inr a"
    using a(1) by simp
  ultimately show ?thesis using ev by blast
qed






end
